theory Spec2Isabelle
  imports Complex_Main "HOL-Library.Word"
begin

section \<open>JavaScript values used by the context vector manager\<close>

text \<open>
  A JavaScript string is a sequence of UTF-16 code units. The regular expression of
  \<open>extractKeywords\<close> and \<open>word.length\<close> both work on code units, so a text is modelled
  as a list of 16-bit words. \<open>str\<close> embeds an ASCII literal.
\<close>

type_synonym jschar = "16 word"
type_synonym jsstring = "jschar list"

definition str :: "string \<Rightarrow> jsstring" where
  "str s = map of_char s"

text \<open>
  A JavaScript number is an IEEE 754 double: \<open>NaN\<close>, an infinity, or a finite value
  \<open>Fin x\<close>, where \<open>x\<close> is the real number the double stands for. The sign of a zero is
  not modelled: the only place where it shows in this program would be a division by a
  negative zero, and every divisor here is a product of two square roots.
\<close>

datatype num = NaN | Fin real | Infinity | NegInfinity

text \<open>
  Rounding to the nearest double, ties to even. A double other than zero is a whole
  multiple of a power of two with 53 significant bits; the exponent of the last bit is
  never below \<open>-1074\<close>. A real number is scaled by the last bit of its own range, rounded
  to the nearest whole number (to the even one in the middle between two), and scaled
  back; a result at or beyond \<open>2 ^ 1024\<close> is an infinity.
\<close>

definition ulp_exponent :: "real \<Rightarrow> int" where
  "ulp_exponent x = max (- 1074) (\<lfloor>log 2 \<bar>x\<bar>\<rfloor> - 52)"

definition round_half_even :: "real \<Rightarrow> int" where
  "round_half_even x =
     (let f = \<lfloor>x\<rfloor>; r = x - of_int f
      in if r < 1 / 2 then f else if 1 / 2 < r then f + 1 else if even f then f else f + 1)"

definition huge :: real where
  "huge = 2 ^ 1024"

definition round64 :: "real \<Rightarrow> num" where
  "round64 x =
     (if x = 0 then Fin 0
      else let e = ulp_exponent x;
               y = of_int (round_half_even (x / 2 powi e)) * 2 powi e
           in if huge \<le> \<bar>y\<bar> then (if 0 < x then Infinity else NegInfinity) else Fin y)"

text \<open>
  The arithmetic of doubles: the exact result, rounded; the usual rules for the
  infinities; \<open>NaN\<close> is absorbing.
\<close>

fun num_neg :: "num \<Rightarrow> num" where
  "num_neg (Fin x) = Fin (- x)"
| "num_neg Infinity = NegInfinity"
| "num_neg NegInfinity = Infinity"
| "num_neg NaN = NaN"

fun num_add :: "num \<Rightarrow> num \<Rightarrow> num" where
  "num_add (Fin x) (Fin y) = round64 (x + y)"
| "num_add NaN _ = NaN"
| "num_add _ NaN = NaN"
| "num_add Infinity NegInfinity = NaN"
| "num_add NegInfinity Infinity = NaN"
| "num_add Infinity _ = Infinity"
| "num_add _ Infinity = Infinity"
| "num_add NegInfinity _ = NegInfinity"
| "num_add _ NegInfinity = NegInfinity"

definition num_sub :: "num \<Rightarrow> num \<Rightarrow> num" where
  "num_sub a b = num_add a (num_neg b)"

text \<open>The sign of an infinity times or over a finite number.\<close>

definition signed_infinity :: "bool \<Rightarrow> num" where
  "signed_infinity positive = (if positive then Infinity else NegInfinity)"

fun num_mul :: "num \<Rightarrow> num \<Rightarrow> num" where
  "num_mul (Fin x) (Fin y) = round64 (x * y)"
| "num_mul NaN _ = NaN"
| "num_mul _ NaN = NaN"
| "num_mul Infinity (Fin y) = (if y = 0 then NaN else signed_infinity (0 < y))"
| "num_mul NegInfinity (Fin y) = (if y = 0 then NaN else signed_infinity (y < 0))"
| "num_mul (Fin x) Infinity = (if x = 0 then NaN else signed_infinity (0 < x))"
| "num_mul (Fin x) NegInfinity = (if x = 0 then NaN else signed_infinity (x < 0))"
| "num_mul Infinity Infinity = Infinity"
| "num_mul NegInfinity NegInfinity = Infinity"
| "num_mul Infinity NegInfinity = NegInfinity"
| "num_mul NegInfinity Infinity = NegInfinity"

text \<open>\<open>Math.sqrt\<close>.\<close>

fun num_sqrt :: "num \<Rightarrow> num" where
  "num_sqrt (Fin x) = (if x < 0 then NaN else round64 (sqrt x))"
| "num_sqrt Infinity = Infinity"
| "num_sqrt NegInfinity = NaN"
| "num_sqrt NaN = NaN"

text \<open>Division; a zero divisor is taken as the positive zero.\<close>

fun num_div :: "num \<Rightarrow> num \<Rightarrow> num" where
  "num_div (Fin x) (Fin y) =
     (if y = 0 then (if x = 0 then NaN else signed_infinity (0 < x)) else round64 (x / y))"
| "num_div NaN _ = NaN"
| "num_div _ NaN = NaN"
| "num_div (Fin x) Infinity = Fin 0"
| "num_div (Fin x) NegInfinity = Fin 0"
| "num_div Infinity (Fin y) = signed_infinity (0 \<le> y)"
| "num_div NegInfinity (Fin y) = signed_infinity (y < 0)"
| "num_div Infinity Infinity = NaN"
| "num_div Infinity NegInfinity = NaN"
| "num_div NegInfinity Infinity = NaN"
| "num_div NegInfinity NegInfinity = NaN"

text \<open>\<open>a >= b\<close> and \<open>a > b\<close> on numbers; every comparison with \<open>NaN\<close> is false.\<close>

fun num_ge :: "num \<Rightarrow> num \<Rightarrow> bool" where
  "num_ge (Fin x) (Fin y) = (y \<le> x)"
| "num_ge NaN _ = False"
| "num_ge _ NaN = False"
| "num_ge Infinity _ = True"
| "num_ge _ NegInfinity = True"
| "num_ge (Fin x) Infinity = False"
| "num_ge NegInfinity _ = False"

fun num_gt :: "num \<Rightarrow> num \<Rightarrow> bool" where
  "num_gt (Fin x) (Fin y) = (y < x)"
| "num_gt NaN _ = False"
| "num_gt _ NaN = False"
| "num_gt Infinity Infinity = False"
| "num_gt Infinity _ = True"
| "num_gt NegInfinity _ = False"
| "num_gt (Fin x) NegInfinity = True"
| "num_gt (Fin x) Infinity = False"

text \<open>
  The values a plain object of this program holds under a key: a number, or a string
  that was built by \<open>+ 1\<close> from a function inherited from \<open>Object.prototype\<close>.
  \<open>FunText k n\<close> is the string made of the source text of the function that
  \<open>Object.prototype\<close> holds under the key \<open>k\<close> (implementation-defined, of the shape
  \<^verbatim>\<open>function Object() { [native code] }\<close>), followed by \<open>n\<close> characters \<^verbatim>\<open>1\<close>.
  Such a string is not empty and is not a numeric literal.
\<close>

datatype jsval = Num num | FunText jsstring nat

text \<open>What reading \<open>obj[key]\<close> gives.\<close>

datatype lookup = Undefined | Own jsval | Inherited jsstring

text \<open>
  A plain object (\<open>{}\<close>) as the list of its own properties in insertion order, which is
  the order of \<open>Object.keys\<close> and \<open>Object.entries\<close> for keys that are not array indices.
\<close>

type_synonym jsobject = "(jsstring \<times> jsval) list"

text \<open>The property names every plain object inherits from \<open>Object.prototype\<close>.\<close>

definition object_prototype_keys :: "jsstring list" where
  "object_prototype_keys = map str
     [''constructor'', ''hasOwnProperty'', ''isPrototypeOf'', ''propertyIsEnumerable'',
      ''toLocaleString'', ''toString'', ''valueOf'', ''__proto__'', ''__defineGetter__'',
      ''__defineSetter__'', ''__lookupGetter__'', ''__lookupSetter__'']"

text \<open>\<open>obj[key]\<close>: the own property if there is one, else the inherited one.\<close>

definition get_prop :: "jsobject \<Rightarrow> jsstring \<Rightarrow> lookup" where
  "get_prop obj key =
     (case map_of obj key of
        Some v \<Rightarrow> Own v
      | None \<Rightarrow> if key \<in> set object_prototype_keys then Inherited key else Undefined)"

text \<open>
  \<open>obj[key] = v\<close>: an own property keeps its place, a new one goes to the end (also when
  the key is inherited: the inherited properties are writable data properties).
\<close>

fun set_prop :: "jsobject \<Rightarrow> jsstring \<Rightarrow> jsval \<Rightarrow> jsobject" where
  "set_prop [] key v = [(key, v)]"
| "set_prop ((k, w) # obj) key v =
     (if k = key then (k, v) # obj else (k, w) # set_prop obj key v)"

text \<open>\<open>x || 0\<close>: the falsy values here are \<open>undefined\<close>, zero and \<open>NaN\<close>.\<close>

fun or_zero :: "lookup \<Rightarrow> lookup" where
  "or_zero Undefined = Own (Num (Fin 0))"
| "or_zero (Own (Num NaN)) = Own (Num (Fin 0))"
| "or_zero (Own (Num (Fin x))) = Own (Num (Fin x))"
| "or_zero (Own (Num Infinity)) = Own (Num Infinity)"
| "or_zero (Own (Num NegInfinity)) = Own (Num NegInfinity)"
| "or_zero (Own (FunText k n)) = Own (FunText k n)"
| "or_zero (Inherited k) = Inherited k"

text \<open>
  \<open>x + 1\<close>: addition on a number; on a function or a string, concatenation of its text
  with \<^verbatim>\<open>1\<close>.
\<close>

fun plus_one :: "lookup \<Rightarrow> jsval" where
  "plus_one (Own (Num x)) = Num (num_add x (Fin 1))"
| "plus_one (Own (FunText k n)) = FunText k (Suc n)"
| "plus_one (Inherited k) = FunText k 1"
| "plus_one Undefined = Num NaN"

text \<open>ToNumber, as the arithmetic operators apply it to their operands.\<close>

fun to_number :: "lookup \<Rightarrow> num" where
  "to_number (Own (Num x)) = x"
| "to_number (Own (FunText k n)) = NaN"
| "to_number (Inherited k) = NaN"
| "to_number Undefined = NaN"

section \<open>Text featurizer\<close>

text \<open>The two character classes of the regular expression: the code units from 4E00 to 9FA5
  (CJK ideographs), and the ASCII letters.\<close>

definition is_cjk :: "jschar \<Rightarrow> bool" where
  "is_cjk c \<longleftrightarrow> 0x4e00 \<le> c \<and> c \<le> 0x9fa5"

definition is_latin :: "jschar \<Rightarrow> bool" where
  "is_latin c \<longleftrightarrow> (0x61 \<le> c \<and> c \<le> 0x7a) \<or> (0x41 \<le> c \<and> c \<le> 0x5a)"

text \<open>
  \<open>text.match(re) || []\<close> with the global flag: from left to right, the longest run of
  the first class that matches at the position, else of the second, else the position
  moves on by one.
\<close>

function match_words :: "jsstring \<Rightarrow> jsstring list" where
  "match_words [] = []"
| "match_words (c # cs) =
     (if is_cjk c then (c # takeWhile is_cjk cs) # match_words (dropWhile is_cjk cs)
      else if is_latin c then (c # takeWhile is_latin cs) # match_words (dropWhile is_latin cs)
      else match_words cs)"
  by pat_completeness auto
termination
  by (relation "measure length") (auto simp: length_dropWhile_le less_Suc_eq_le)

text \<open>The body of the \<open>forEach\<close> that counts: \<open>wordFreq[word] = (wordFreq[word] || 0) + 1\<close>.\<close>

definition count_word :: "jsstring \<Rightarrow> jsobject \<Rightarrow> jsobject" where
  "count_word word wordFreq =
     (if length word > 1
      then set_prop wordFreq word (plus_one (or_zero (get_prop wordFreq word)))
      else wordFreq)"

text \<open>
  \<open>Array.prototype.sort\<close> with a comparator is stable: \<open>a\<close> moves behind \<open>b\<close> only when
  the comparator's result for \<open>(a, b)\<close> is above zero (a \<open>NaN\<close> result counts as zero).
  \<open>compare_weight\<close> is \<open>(a, b) => b[1] - a[1]\<close>. When a weight is a string the comparator
  is not a consistent order and ECMAScript leaves the outcome to the implementation; the
  model then gives the order of the stable insertion sort below.
\<close>

definition compare_weight :: "jsstring \<times> jsval \<Rightarrow> jsstring \<times> jsval \<Rightarrow> num" where
  "compare_weight a b = num_sub (to_number (Own (snd b))) (to_number (Own (snd a)))"

fun insert_sorted :: "('a \<Rightarrow> 'a \<Rightarrow> num) \<Rightarrow> 'a \<Rightarrow> 'a list \<Rightarrow> 'a list" where
  "insert_sorted cmp x [] = [x]"
| "insert_sorted cmp x (y # ys) =
     (if num_gt (cmp x y) (Fin 0) then y # insert_sorted cmp x ys else x # y # ys)"

definition js_sort :: "('a \<Rightarrow> 'a \<Rightarrow> num) \<Rightarrow> 'a list \<Rightarrow> 'a list" where
  "js_sort cmp xs = foldr (insert_sorted cmp) xs []"

text \<open>\<open>extractKeywords\<close>: the keywords as (word, weight) pairs.\<close>

definition extractKeywords :: "jsstring \<Rightarrow> (jsstring \<times> jsval) list" where
  "extractKeywords text =
     (let words = match_words text;
          wordFreq = fold count_word words []
      in take 20 (js_sort compare_weight wordFreq))"

text \<open>\<open>createKeywordVector\<close>: one property per keyword, set in order.\<close>

definition createKeywordVector :: "jsstring \<Rightarrow> jsobject" where
  "createKeywordVector text =
     fold (\<lambda>(word, weight) vector. set_prop vector word weight) (extractKeywords text) []"

section \<open>Similarity scorer\<close>

text \<open>
  What a vector variable holds: nothing (\<open>undefined\<close> or \<open>null\<close>), an array of numbers
  (a dense vector) or a plain object (a sparse vector).
\<close>

datatype vecvalue = Absent | Dense "real list" | Sparse jsobject

text \<open>\<open>new Set(keys)\<close>: the distinct keys, each at the place of its first occurrence.\<close>

definition js_set :: "'a list \<Rightarrow> 'a list" where
  "js_set xs = fold (\<lambda>k s. if k \<in> set s then s else s @ [k]) xs []"

definition all_keys :: "jsobject \<Rightarrow> jsobject \<Rightarrow> jsstring list" where
  "all_keys vec1 vec2 = js_set (map fst vec1 @ map fst vec2)"

text \<open>\<open>vec[key] || 0\<close>, as a number.\<close>

definition weight_of :: "jsobject \<Rightarrow> jsstring \<Rightarrow> num" where
  "weight_of vec key = to_number (or_zero (get_prop vec key))"

text \<open>The body of the \<open>forEach\<close> over all keys, on (dotProduct, norm1, norm2).\<close>

definition object_step ::
  "jsobject \<Rightarrow> jsobject \<Rightarrow> jsstring \<Rightarrow> num \<times> num \<times> num \<Rightarrow> num \<times> num \<times> num" where
  "object_step vec1 vec2 key acc =
     (case acc of (dotProduct, norm1, norm2) \<Rightarrow>
        let v1 = weight_of vec1 key; v2 = weight_of vec2 key
        in (num_add dotProduct (num_mul v1 v2),
            num_add norm1 (num_mul v1 v1),
            num_add norm2 (num_mul v2 v2)))"

definition calculateObjectCosineSimilarity :: "jsobject \<Rightarrow> jsobject \<Rightarrow> num" where
  "calculateObjectCosineSimilarity vec1 vec2 =
     (case fold (object_step vec1 vec2) (all_keys vec1 vec2) (Fin 0, Fin 0, Fin 0) of
        (dotProduct, norm1, norm2) \<Rightarrow>
          if norm1 = Fin 0 \<or> norm2 = Fin 0 then Fin 0
          else num_div dotProduct (num_mul (num_sqrt norm1) (num_sqrt norm2)))"

text \<open>The body of the \<open>for\<close> loop over \<open>i < len\<close>; both reads are in range.\<close>

definition array_step ::
  "real list \<Rightarrow> real list \<Rightarrow> nat \<Rightarrow> num \<times> num \<times> num \<Rightarrow> num \<times> num \<times> num" where
  "array_step vec1 vec2 i acc =
     (case acc of (dotProduct, norm1, norm2) \<Rightarrow>
        (num_add dotProduct (num_mul (Fin (vec1 ! i)) (Fin (vec2 ! i))),
         num_add norm1 (num_mul (Fin (vec1 ! i)) (Fin (vec1 ! i))),
         num_add norm2 (num_mul (Fin (vec2 ! i)) (Fin (vec2 ! i)))))"

definition calculateArrayCosineSimilarity :: "real list \<Rightarrow> real list \<Rightarrow> num" where
  "calculateArrayCosineSimilarity vec1 vec2 =
     (let len = min (length vec1) (length vec2)
      in case fold (array_step vec1 vec2) [0..<len] (Fin 0, Fin 0, Fin 0) of
        (dotProduct, norm1, norm2) \<Rightarrow>
          if norm1 = Fin 0 \<or> norm2 = Fin 0 then Fin 0
          else num_div dotProduct (num_mul (num_sqrt norm1) (num_sqrt norm2)))"

text \<open>\<open>Array.isArray\<close>.\<close>

fun isArray :: "vecvalue \<Rightarrow> bool" where
  "isArray (Dense _) = True"
| "isArray _ = False"

fun calculateCosineSimilarity :: "vecvalue \<Rightarrow> vecvalue \<Rightarrow> num" where
  "calculateCosineSimilarity Absent _ = Fin 0"
| "calculateCosineSimilarity _ Absent = Fin 0"
| "calculateCosineSimilarity (Dense a) (Dense b) = calculateArrayCosineSimilarity a b"
| "calculateCosineSimilarity (Sparse a) (Sparse b) = calculateObjectCosineSimilarity a b"
| "calculateCosineSimilarity (Dense a) (Sparse b) = Fin 0"
| "calculateCosineSimilarity (Sparse a) (Dense b) = Fin 0"

section \<open>Memory store\<close>

text \<open>
  The session state handed to \<open>addConversation\<close> and \<open>buildOptimizedMessages\<close>; a field
  that is \<open>undefined\<close> is \<open>None\<close>.
\<close>

record variables =
  location :: "jsstring option"
  realm :: "jsstring option"
  hp :: "real option"
  mp :: "real option"
  items :: "jsstring list option"
  relationships :: "jsstring list option"

text \<open>What \<open>extractImportantVariables\<close> keeps of it.\<close>

record snapshot =
  location :: "jsstring option"
  realm :: "jsstring option"
  hp :: "real option"
  mp :: "real option"
  hasNewItems :: "bool option"
  hasNewRelationships :: "bool option"

text \<open>One entry of \<open>conversationEmbeddings\<close>.\<close>

record conversation =
  turnIndex :: int
  userMessage :: jsstring
  aiResponse :: jsstring
  vector :: vecvalue
  vectorType :: string
  summary :: jsstring
  timestamp :: int
  variables :: snapshot

text \<open>The fields the constructor of \<open>ContextVectorManager\<close> sets.\<close>

record manager =
  conversationEmbeddings :: "conversation list"
  embeddingMethod :: string
  maxRetrieveCount :: nat
  minSimilarityThreshold :: real

definition constructor :: manager where
  "constructor =
     \<lparr>conversationEmbeddings = [], embeddingMethod = ''keyword'',
      maxRetrieveCount = 5, minSimilarityThreshold = 3 / 10\<rparr>"

text \<open>A role-tagged message. The content is either a text or stands for a text that is
  rendered from data by \<open>JSON.stringify\<close> or \<open>toFixed\<close>, which are not modelled:
  \<open>VariablesDump v\<close> is the state message with the dump of \<open>v\<close>, and \<open>Memories cs\<close> is
  the numbered list of the retrieved memories \<open>cs\<close>, in that order, each with its turn
  index, similarity, user message and summary.\<close>

record chunk =
  turnIndex :: int
  userMessage :: jsstring
  aiResponse :: jsstring
  similarity :: num
  summary :: jsstring

datatype content = Plain jsstring | VariablesDump variables | Memories "chunk list"

record message =
  role :: string
  content :: content

text \<open>A call into the outside world throws or returns.\<close>

datatype 'a outcome = Throws | Returns 'a

text \<open>
  What the browser environment does when the manager calls into it:
  \<^item> \<open>extraApiEnabled\<close>: \<open>window.extraApiConfig\<close> is set and enabled;
  \<^item> \<open>fetchEmbedding\<close>: the POST of the text to the embeddings endpoint and the read of
    \<open>data.data[0].embedding\<close> in the answer; it throws on a network error, a status that
    is not ok, or an answer of another shape;
  \<^item> \<open>transformersDefined\<close>: \<open>window.transformers\<close> is defined before the call;
  \<^item> \<open>loadTransformersJS\<close>: \<open>None\<close> when \<open>window.loadTransformersJS\<close> is no function, else
    what the load does: it throws, or returns with \<open>window.transformers\<close> defined or not;
  \<^item> \<open>embeddingPipelineSet\<close>: \<open>this.embeddingPipeline\<close> is already there;
  \<^item> \<open>createPipeline\<close>: the load of the model;
  \<^item> \<open>runPipeline\<close>: the feature extraction on a text, \<open>Array.from(output.data)\<close>;
  \<^item> \<open>dateNow\<close>: \<open>Date.now()\<close>;
  \<^item> \<open>gameStateHistory\<close>: \<open>window.gameState?.conversationHistory || []\<close>.
\<close>

record environment =
  extraApiEnabled :: bool
  fetchEmbedding :: "jsstring \<Rightarrow> vecvalue outcome"
  transformersDefined :: bool
  loadTransformersJS :: "bool outcome option"
  embeddingPipelineSet :: bool
  createPipeline :: "unit outcome"
  runPipeline :: "jsstring \<Rightarrow> real list outcome"
  dateNow :: int
  gameStateHistory :: "message list"

text \<open>
  \<open>getEmbeddingFromAPI\<close>: the keyword vector when the extra API is off or the call
  throws, else whatever the answer holds. The text is cut to 8000 code units.
\<close>

definition getEmbeddingFromAPI :: "environment \<Rightarrow> jsstring \<Rightarrow> vecvalue outcome" where
  "getEmbeddingFromAPI env text =
     (if \<not> extraApiEnabled env then Returns (Sparse (createKeywordVector text))
      else case fetchEmbedding env (take 8000 text) of
        Throws \<Rightarrow> Returns (Sparse (createKeywordVector text))
      | Returns embedding \<Rightarrow> Returns embedding)"

text \<open>
  \<open>getEmbeddingFromTransformers\<close>: every throw inside is caught and answered with the
  keyword vector. The text is cut to 500 code units.
\<close>

definition getEmbeddingFromTransformers :: "environment \<Rightarrow> jsstring \<Rightarrow> vecvalue outcome" where
  "getEmbeddingFromTransformers env text =
     (let keyword = Returns (Sparse (createKeywordVector text));
          run = (case runPipeline env (take 500 text) of
                   Throws \<Rightarrow> keyword
                 | Returns output \<Rightarrow> Returns (Dense output));
          model = (if embeddingPipelineSet env then run
                   else case createPipeline env of Throws \<Rightarrow> keyword | Returns _ \<Rightarrow> run);
          loaded = (\<lambda>defined. if defined then model else keyword)
      in if \<not> transformersDefined env
         then (case loadTransformersJS env of
                 None \<Rightarrow> loaded False
               | Some Throws \<Rightarrow> keyword
               | Some (Returns defined) \<Rightarrow> loaded defined)
         else loaded True)"

text \<open>\<open>Array.prototype.findIndex\<close>: the first index that satisfies, else \<open>-1\<close>.\<close>

fun findIndex :: "('a \<Rightarrow> bool) \<Rightarrow> 'a list \<Rightarrow> int" where
  "findIndex P [] = - 1"
| "findIndex P (x # xs) =
     (if P x then 0 else let i = findIndex P xs in if i = - 1 then - 1 else i + 1)"

text \<open>\<open>xs.splice(i, 1)\<close> for an index \<open>i\<close> in range: the element at \<open>i\<close> goes.\<close>

definition splice1 :: "int \<Rightarrow> 'a list \<Rightarrow> 'a list" where
  "splice1 i xs = take (nat i) xs @ drop (nat i + 1) xs"

text \<open>\<open>parts.join(sep)\<close>.\<close>

fun join :: "jsstring \<Rightarrow> jsstring list \<Rightarrow> jsstring" where
  "join sep [] = []"
| "join sep [p] = p"
| "join sep (p # q # ps) = p @ sep @ join sep (q # ps)"

text \<open>
  \<open>extractSummary\<close>. The literals are given by their code units: the player label
  (U+73A9 U+5BB6 U+FF1A), the keyword label (U+5173 U+952E U+8BCD U+FF1A), the comma
  U+3001 and the place label (U+5730 U+70B9 U+FF1A). A location counts when it is a
  string that is not empty.
\<close>

definition extractSummary :: "jsstring \<Rightarrow> jsstring \<Rightarrow> variables \<Rightarrow> jsstring" where
  "extractSummary userMsg aiResp vars =
     (let action = (if length userMsg < 50
                    then [[0x73A9, 0x5BB6, 0xFF1A] @ userMsg]
                    else [[0x73A9, 0x5BB6, 0xFF1A] @ take 50 userMsg @ str ''...'']);
          keywords = extractKeywords aiResp;
          topKeywords = (if length keywords > 0
                         then [[0x5173, 0x952E, 0x8BCD, 0xFF1A]
                               @ join [0x3001] (map fst (take 5 keywords))]
                         else []);
          place = (case variables.location vars of
                     None \<Rightarrow> []
                   | Some l \<Rightarrow> if l = [] then [] else [[0x5730, 0x70B9, 0xFF1A] @ l])
      in join (str '' | '') (action @ topKeywords @ place))"

text \<open>\<open>x && x.length > 0\<close>: \<open>undefined\<close> stays \<open>undefined\<close>.\<close>

definition non_empty :: "'a list option \<Rightarrow> bool option" where
  "non_empty x = map_option (\<lambda>l. length l > 0) x"

definition extractImportantVariables :: "variables \<Rightarrow> snapshot" where
  "extractImportantVariables vars =
     \<lparr>snapshot.location = variables.location vars,
      snapshot.realm = variables.realm vars,
      snapshot.hp = variables.hp vars, snapshot.mp = variables.mp vars,
      hasNewItems = non_empty (items vars),
      hasNewRelationships = non_empty (relationships vars)\<rparr>"

text \<open>
  The check of the vector after the backend:
  \<^verbatim>\<open>!vector || (Array.isArray(vector) && vector.length === 0) ||
  (typeof vector === 'object' && Object.keys(vector).length === 0)\<close>.
\<close>

fun invalid_vector :: "vecvalue \<Rightarrow> bool" where
  "invalid_vector Absent = True"
| "invalid_vector (Dense xs) = (length xs = 0)"
| "invalid_vector (Sparse obj) = (length obj = 0)"

text \<open>The \<open>try\<close> block of \<open>addConversation\<close> with its \<open>catch\<close>: the vector of the entry.\<close>

definition vectorize :: "manager \<Rightarrow> environment \<Rightarrow> jsstring \<Rightarrow> vecvalue" where
  "vectorize m env combinedText =
     (let attempt =
        (if embeddingMethod m = ''keyword''
         then Returns (Sparse (createKeywordVector combinedText))
         else if embeddingMethod m = ''api'' then getEmbeddingFromAPI env combinedText
         else if embeddingMethod m = ''transformers''
         then getEmbeddingFromTransformers env combinedText
         else Returns (Sparse (createKeywordVector combinedText)))
      in case attempt of
           Throws \<Rightarrow> Sparse (createKeywordVector combinedText)
         | Returns vec \<Rightarrow>
             if invalid_vector vec then Sparse (createKeywordVector combinedText)
             else vec)"

text \<open>
  \<open>addConversation\<close>, run to its end: an entry with the same \<open>turnIndex\<close> is removed (the
  first one found), then the new entry is pushed. \<open>[0x0A]\<close> is the line feed between the
  two messages.
\<close>

definition addConversation ::
  "manager \<Rightarrow> environment \<Rightarrow> jsstring \<Rightarrow> jsstring \<Rightarrow> int \<Rightarrow> variables \<Rightarrow> manager" where
  "addConversation m env userMsg aiResp turn vars =
     (let existingIndex =
            findIndex (\<lambda>conv. conversation.turnIndex conv = turn) (conversationEmbeddings m);
          embeddings = (if existingIndex \<noteq> - 1
                        then splice1 existingIndex (conversationEmbeddings m)
                        else conversationEmbeddings m);
          combinedText = userMsg @ [0x0A] @ aiResp;
          vec = vectorize m env combinedText
      in m\<lparr>conversationEmbeddings := embeddings @
           [\<lparr>conversation.turnIndex = turn,
             conversation.userMessage = userMsg,
             conversation.aiResponse = aiResp,
             vector = vec,
             vectorType = (if isArray vec then ''dense'' else ''sparse''),
             conversation.summary = extractSummary userMsg aiResp vars,
             timestamp = dateNow env,
             variables = extractImportantVariables vars\<rparr>]\<rparr>)"

text \<open>\<open>setEmbeddingMethod\<close> and \<open>clear\<close>.\<close>

definition setEmbeddingMethod :: "string \<Rightarrow> manager \<Rightarrow> manager" where
  "setEmbeddingMethod method m =
     (if method \<in> set [''keyword'', ''api'', ''transformers'']
      then m\<lparr>embeddingMethod := method\<rparr> else m)"

definition clear :: "manager \<Rightarrow> manager" where
  "clear m = m\<lparr>conversationEmbeddings := []\<rparr>"

section \<open>Retriever\<close>

text \<open>An element of \<open>similarities\<close>, and the result of a retrieval.\<close>

record scored =
  index :: nat
  turnIndex :: int
  similarity :: num
  conversation :: conversation

record retrieval =
  relevantChunks :: "chunk list"
  recentChunks :: "message list"

text \<open>
  The function mapped over the store: a dense vector is replaced by the keyword vector of
  the entry's two messages, any other vector is taken as it is.
\<close>

definition score :: "jsobject \<Rightarrow> nat \<Rightarrow> conversation \<Rightarrow> scored" where
  "score currentVector i conv =
     (let convVector =
            (if isArray (vector conv)
             then Sparse (createKeywordVector
                    (conversation.userMessage conv @ [0x0A] @ conversation.aiResponse conv))
             else vector conv)
      in \<lparr>index = i, scored.turnIndex = conversation.turnIndex conv,
          scored.similarity = calculateCosineSimilarity (Sparse currentVector) convVector,
          conversation = conv\<rparr>)"

text \<open>The filter \<open>item.similarity >= this.minSimilarityThreshold\<close>.\<close>

definition relevant :: "manager \<Rightarrow> scored \<Rightarrow> bool" where
  "relevant m item = num_ge (scored.similarity item) (Fin (minSimilarityThreshold m))"

text \<open>The comparator \<open>(a, b) => b.similarity - a.similarity\<close>.\<close>

definition compare_similarity :: "scored \<Rightarrow> scored \<Rightarrow> num" where
  "compare_similarity a b = num_sub (scored.similarity b) (scored.similarity a)"

definition to_chunk :: "scored \<Rightarrow> chunk" where
  "to_chunk item =
     \<lparr>chunk.turnIndex = scored.turnIndex item,
      chunk.userMessage = conversation.userMessage (conversation item),
      chunk.aiResponse = conversation.aiResponse (conversation item),
      chunk.similarity = scored.similarity item,
      chunk.summary = conversation.summary (conversation item)\<rparr>"

text \<open>
  \<open>retrieveRelevantContext\<close>. \<open>slice(0, maxRetrieveCount)\<close> is \<open>take\<close>. With the store and
  the texts typed as above nothing in the \<open>try\<close> block throws, so its \<open>catch\<close> has no
  branch here.
\<close>

definition retrieveRelevantContext :: "manager \<Rightarrow> jsstring \<Rightarrow> message list \<Rightarrow> retrieval" where
  "retrieveRelevantContext m currentInput recentHistory =
     (if length (conversationEmbeddings m) = 0
      then \<lparr>relevantChunks = [], recentChunks = recentHistory\<rparr>
      else let currentVector = createKeywordVector currentInput
        in if length currentVector = 0
           then \<lparr>relevantChunks = [], recentChunks = recentHistory\<rparr>
           else let similarities = map (\<lambda>(i, conv). score currentVector i conv)
                                     (enumerate 0 (conversationEmbeddings m));
                    relevantConversations =
                      take (maxRetrieveCount m)
                        (js_sort compare_similarity (filter (relevant m) similarities))
             in \<lparr>relevantChunks = map to_chunk relevantConversations,
                 recentChunks = recentHistory\<rparr>)"

section \<open>Context assembler\<close>

text \<open>
  \<open>xs.slice(-n)\<close> for \<open>n > 0\<close>: the last \<open>n\<close> elements, all of them when there are fewer
  (the subtraction on \<open>nat\<close> stops at zero, as the clamping of the start index does).
\<close>

definition slice_last :: "nat \<Rightarrow> 'a list \<Rightarrow> 'a list" where
  "slice_last n xs = drop (length xs - n) xs"

definition buildOptimizedMessages ::
  "manager \<Rightarrow> environment \<Rightarrow> jsstring \<Rightarrow> variables \<Rightarrow> jsstring \<Rightarrow> nat \<Rightarrow> message list
     \<Rightarrow> message list" where
  "buildOptimizedMessages m env systemPrompt currentVariables currentInput historyDepth
      fullConversationHistory =
     (let messages =
            [\<lparr>role = ''system'', content = Plain systemPrompt\<rparr>,
             \<lparr>role = ''system'', content = VariablesDump currentVariables\<rparr>];
          retrievalResult = retrieveRelevantContext m currentInput [];
          messages =
            (if length (relevantChunks retrievalResult) > 0
             then messages @
                    [\<lparr>role = ''system'', content = Memories (relevantChunks retrievalResult)\<rparr>]
             else messages);
          conversationHistory =
            (if length fullConversationHistory > 0 then fullConversationHistory
             else gameStateHistory env);
          messages =
            (if length conversationHistory > 0 \<and> historyDepth > 0
             then messages @ slice_last (historyDepth * 2) conversationHistory
             else messages)
      in messages @ [\<lparr>role = ''user'', content = Plain currentInput\<rparr>])"

section \<open>Persistence and the operations on a session\<close>

text \<open>
  The manager together with the record that \<open>saveToIndexedDB\<close> keeps in the database
  (\<open>None\<close> when the object store holds no record \<open>main\<close>).
\<close>

record session =
  manager :: manager
  saved :: "conversation list option"

text \<open>
  A save can fail before it touches the object store, fail between \<open>store.clear()\<close> and
  \<open>store.put\<close>, or go through. A load can fail, or read the record. Each failure is
  caught and logged.
\<close>

datatype save_outcome = SaveFails | SaveOnlyClears | SaveDone

definition saveToIndexedDB :: "save_outcome \<Rightarrow> session \<Rightarrow> session" where
  "saveToIndexedDB outcome s =
     (case outcome of
        SaveFails \<Rightarrow> s
      | SaveOnlyClears \<Rightarrow> s\<lparr>saved := None\<rparr>
      | SaveDone \<Rightarrow> s\<lparr>saved := Some (conversationEmbeddings (manager s))\<rparr>)"

definition loadFromIndexedDB :: "bool \<Rightarrow> session \<Rightarrow> session" where
  "loadFromIndexedDB succeeds s =
     (if succeeds
      then (case saved s of
              None \<Rightarrow> s
            | Some embeddings \<Rightarrow> s\<lparr>manager := (manager s)\<lparr>conversationEmbeddings := embeddings\<rparr>\<rparr>)
      else s)"

text \<open>
  The operations of a session, each run to its end before the next one starts.
  \<open>Configure\<close> is the assignment of the two retrieval settings.
\<close>

datatype operation =
    AddConversation environment jsstring jsstring int variables
  | Clear
  | SetEmbeddingMethod string
  | Configure nat real
  | Save save_outcome
  | Load bool

fun perform :: "operation \<Rightarrow> session \<Rightarrow> session" where
  "perform (AddConversation env userMsg aiResp turn vars) s =
     s\<lparr>manager := addConversation (manager s) env userMsg aiResp turn vars\<rparr>"
| "perform Clear s = s\<lparr>manager := clear (manager s)\<rparr>"
| "perform (SetEmbeddingMethod method) s = s\<lparr>manager := setEmbeddingMethod method (manager s)\<rparr>"
| "perform (Configure count threshold) s =
     s\<lparr>manager := (manager s)\<lparr>maxRetrieveCount := count, minSimilarityThreshold := threshold\<rparr>\<rparr>"
| "perform (Save outcome) s = saveToIndexedDB outcome s"
| "perform (Load succeeds) s = loadFromIndexedDB succeeds s"

text \<open>A fresh page: the constructed manager and an empty database; then a run.\<close>

definition initial :: session where
  "initial = \<lparr>manager = constructor, saved = None\<rparr>"

definition run :: "operation list \<Rightarrow> session" where
  "run ops = fold perform ops initial"

section \<open>The arrays as objects on a heap\<close>

text \<open>
  In the program an array is an object, and several variables can name the same one:
  \<open>sort\<close> and \<open>push\<close> change the array they are called on, while \<open>map\<close>, \<open>filter\<close> and
  \<open>slice\<close> make a new array. To follow which arrays a call changes, the arrays are put on
  a heap: a list of arrays in which the address of an array is its position, and a new
  array goes to the end.
\<close>

datatype array =
    Conversations "conversation list"
  | Scoreds "scored list"
  | Chunks "chunk list"
  | Messages "message list"

type_synonym address = nat
type_synonym heap = "array list"

definition array_at :: "heap \<Rightarrow> address \<Rightarrow> array option" where
  "array_at h a = (if a < length h then Some (h ! a) else None)"

definition allocate :: "array \<Rightarrow> heap \<Rightarrow> address \<times> heap" where
  "allocate arr h = (length h, h @ [arr])"

text \<open>The elements of an array of a known kind.\<close>

definition scored_at :: "heap \<Rightarrow> address \<Rightarrow> scored list" where
  "scored_at h a = (case array_at h a of Some (Scoreds xs) \<Rightarrow> xs | _ \<Rightarrow> [])"

definition chunks_at :: "heap \<Rightarrow> address \<Rightarrow> chunk list" where
  "chunks_at h a = (case array_at h a of Some (Chunks xs) \<Rightarrow> xs | _ \<Rightarrow> [])"

definition messages_at :: "heap \<Rightarrow> address \<Rightarrow> message list" where
  "messages_at h a = (case array_at h a of Some (Messages xs) \<Rightarrow> xs | _ \<Rightarrow> [])"

text \<open>\<open>xs.sort((a, b) => b.similarity - a.similarity)\<close>: in place.\<close>

definition sort_in_place :: "address \<Rightarrow> heap \<Rightarrow> heap" where
  "sort_in_place a h = h[a := Scoreds (js_sort compare_similarity (scored_at h a))]"

text \<open>\<open>messages.push(...)\<close>: in place.\<close>

definition push :: "address \<Rightarrow> message list \<Rightarrow> heap \<Rightarrow> heap" where
  "push a new h = h[a := Messages (messages_at h a @ new)]"

text \<open>
  The manager as an object whose field \<open>conversationEmbeddings\<close> holds the address of the
  store, and the manager it stands for in a heap.
\<close>

record manager_object =
  embeddingsRef :: address
  methodField :: string
  countField :: nat
  thresholdField :: real

definition manager_of :: "manager_object \<Rightarrow> heap \<Rightarrow> manager option" where
  "manager_of this h =
     (case array_at h (embeddingsRef this) of
        Some (Conversations embeddings) \<Rightarrow>
          Some \<lparr>conversationEmbeddings = embeddings, embeddingMethod = methodField this,
                maxRetrieveCount = countField this,
                minSimilarityThreshold = thresholdField this\<rparr>
      | _ \<Rightarrow> None)"

text \<open>
  \<open>retrieveRelevantContext\<close> on the heap. The result is the pair of the addresses of
  \<open>relevantChunks\<close> and \<open>recentChunks\<close>, with the heap after the call; there is no result
  when the field of the manager does not hold an array of conversations.
\<close>

definition retrieveRelevantContext_heap ::
  "manager_object \<Rightarrow> jsstring \<Rightarrow> address \<Rightarrow> heap \<Rightarrow> ((address \<times> address) \<times> heap) option" where
  "retrieveRelevantContext_heap this currentInput recentHistory h =
     (case manager_of this h of
        None \<Rightarrow> None
      | Some m \<Rightarrow>
          if length (conversationEmbeddings m) = 0
          then (let (emptyRef, h1) = allocate (Chunks []) h
                in Some ((emptyRef, recentHistory), h1))
          else let currentVector = createKeywordVector currentInput
            in if length currentVector = 0
               then (let (emptyRef, h1) = allocate (Chunks []) h
                     in Some ((emptyRef, recentHistory), h1))
               else
                 let (similarities, h1) =
                       allocate (Scoreds (map (\<lambda>(i, conv). score currentVector i conv)
                                          (enumerate 0 (conversationEmbeddings m)))) h;
                     (filtered, h2) =
                       allocate (Scoreds (filter (relevant m) (scored_at h1 similarities))) h1;
                     h3 = sort_in_place filtered h2;
                     (relevantConversations, h4) =
                       allocate (Scoreds (take (maxRetrieveCount m) (scored_at h3 filtered))) h3;
                     (chunksRef, h5) =
                       allocate (Chunks (map to_chunk (scored_at h4 relevantConversations))) h4
                 in Some ((chunksRef, recentHistory), h5))"

text \<open>
  \<open>buildOptimizedMessages\<close> on the heap. \<open>fullConversationHistory\<close> is the address of the
  history passed in, \<open>ambient\<close> the address of \<open>window.gameState.conversationHistory\<close> when
  there is one. The result is the address of \<open>messages\<close>.
\<close>

definition buildOptimizedMessages_heap ::
  "manager_object \<Rightarrow> address option \<Rightarrow> jsstring \<Rightarrow> variables \<Rightarrow> jsstring \<Rightarrow> nat \<Rightarrow> address
     \<Rightarrow> heap \<Rightarrow> (address \<times> heap) option" where
  "buildOptimizedMessages_heap this ambient systemPrompt currentVariables currentInput
      historyDepth fullConversationHistory h =
     (let (messages, h1) = allocate (Messages []) h;
          h2 = push messages [\<lparr>role = ''system'', content = Plain systemPrompt\<rparr>] h1;
          h3 = push messages [\<lparr>role = ''system'', content = VariablesDump currentVariables\<rparr>] h2;
          (noRecent, h4) = allocate (Messages []) h3
      in case retrieveRelevantContext_heap this currentInput noRecent h4 of
           None \<Rightarrow> None
         | Some ((chunksRef, recentRef), h5) \<Rightarrow>
             let h6 = (if length (chunks_at h5 chunksRef) > 0
                       then push messages
                              [\<lparr>role = ''system'',
                                content = Memories (chunks_at h5 chunksRef)\<rparr>] h5
                       else h5);
                 (conversationHistory, h7) =
                   (if length (messages_at h6 fullConversationHistory) > 0
                    then (fullConversationHistory, h6)
                    else case ambient of
                           Some history \<Rightarrow> (history, h6)
                         | None \<Rightarrow> allocate (Messages []) h6);
                 h10 = (if length (messages_at h7 conversationHistory) > 0 \<and> historyDepth > 0
                        then let (recentHistory, h8) =
                                   allocate (Messages (slice_last (historyDepth * 2)
                                              (messages_at h7 conversationHistory))) h7
                             in push messages (messages_at h8 recentHistory) h8
                        else h7)
             in Some (messages,
                      push messages [\<lparr>role = ''user'', content = Plain currentInput\<rparr>] h10))"

section \<open>Notions used in the statements\<close>

text \<open>A number that lies between two bounds.\<close>

fun in_range :: "real \<Rightarrow> real \<Rightarrow> num \<Rightarrow> bool" where
  "in_range lo hi (Fin r) = (lo \<le> r \<and> r \<le> hi)"
| "in_range lo hi _ = False"

text \<open>A result that is not below zero: a number from zero up, or \<open>NaN\<close>.\<close>

fun not_negative :: "num \<Rightarrow> bool" where
  "not_negative (Fin r) = (0 \<le> r)"
| "not_negative Infinity = True"
| "not_negative NaN = True"
| "not_negative NegInfinity = False"

text \<open>The comparison \<open>===\<close> of two numbers: \<open>NaN\<close> is equal to nothing, itself included.\<close>

definition strict_equal :: "num \<Rightarrow> num \<Rightarrow> bool" where
  "strict_equal a b \<longleftrightarrow> a = b \<and> a \<noteq> NaN"

text \<open>A double, as a real: a whole multiple of the smallest positive double.\<close>

definition tiny :: real where
  "tiny = 2 powi (- 1074)"

definition double :: "real \<Rightarrow> bool" where
  "double x \<longleftrightarrow> of_int \<lfloor>x / tiny\<rfloor> = x / tiny"

fun machine_number :: "num \<Rightarrow> bool" where
  "machine_number (Fin x) = double x"
| "machine_number _ = True"

text \<open>A weight that is a positive whole number.\<close>

fun positive_integer :: "jsval \<Rightarrow> bool" where
  "positive_integer (Num (Fin x)) = (0 < x \<and> of_int \<lfloor>x\<rfloor> = x)"
| "positive_integer _ = False"

text \<open>The text holds a term of two code units or more.\<close>

definition has_term :: "jsstring \<Rightarrow> bool" where
  "has_term text = list_ex (\<lambda>word. length word > 1) (match_words text)"


text \<open>The weight of a key in such a vector, as a real.\<close>

definition real_weight :: "jsobject \<Rightarrow> jsstring \<Rightarrow> real" where
  "real_weight obj key = (case map_of obj key of Some (Num (Fin x)) \<Rightarrow> x | _ \<Rightarrow> 0)"

text \<open>
  A sparse vector of counts, as \<open>createKeywordVector\<close> makes them from ordinary words: the
  weights are whole numbers from zero up, under keys that are not inherited names. The sum
  of the squares of all weights of two vectors is what the loops add up at most.
\<close>

definition whole_weights :: "jsobject \<Rightarrow> bool" where
  "whole_weights obj =
     list_all (\<lambda>(key, w). key \<notin> set object_prototype_keys \<and>
                 (case w of Num (Fin x) \<Rightarrow> 0 \<le> x \<and> of_int \<lfloor>x\<rfloor> = x | _ \<Rightarrow> False)) obj"

definition sum_of_squares :: "jsobject \<Rightarrow> jsobject \<Rightarrow> real" where
  "sum_of_squares u v =
     (\<Sum>key\<leftarrow>all_keys u v. real_weight u key * real_weight u key
                          + real_weight v key * real_weight v key)"

text \<open>
  A call to a backend throws somewhere: the remote call, the load of the on-device
  library, the load of its model, or the feature extraction. \<open>library_defined\<close> says that
  \<open>window.transformers\<close> is defined once the optional load is over.
\<close>

definition library_defined :: "environment \<Rightarrow> bool" where
  "library_defined env =
     (transformersDefined env \<or> loadTransformersJS env = Some (Returns True))"

definition backend_throws :: "manager \<Rightarrow> environment \<Rightarrow> jsstring \<Rightarrow> bool" where
  "backend_throws m env text \<longleftrightarrow>
     (embeddingMethod m = ''api'' \<and> extraApiEnabled env
        \<and> fetchEmbedding env (take 8000 text) = Throws)
   \<or> (embeddingMethod m = ''transformers'' \<and> \<not> transformersDefined env
        \<and> loadTransformersJS env = Some Throws)
   \<or> (embeddingMethod m = ''transformers'' \<and> library_defined env
        \<and> \<not> embeddingPipelineSet env \<and> createPipeline env = Throws)
   \<or> (embeddingMethod m = ''transformers'' \<and> library_defined env
        \<and> (embeddingPipelineSet env \<or> createPipeline env = Returns ())
        \<and> runPipeline env (take 500 text) = Throws)"

text \<open>
  Scored items in the order of descending similarity; an item whose similarity is a
  double or the positive infinity.
\<close>

definition descending :: "scored list \<Rightarrow> bool" where
  "descending xs = sorted_wrt (\<lambda>a b. num_ge (scored.similarity a) (scored.similarity b)) xs"

definition rankable :: "scored \<Rightarrow> bool" where
  "rankable x \<longleftrightarrow>
     machine_number (scored.similarity x)
     \<and> (case scored.similarity x of Fin r \<Rightarrow> True | Infinity \<Rightarrow> True | _ \<Rightarrow> False)"





text \<open>The message with the retrieved memories, when there are any.\<close>

definition memory_messages :: "manager \<Rightarrow> jsstring \<Rightarrow> message list" where
  "memory_messages m currentInput =
     (let chunks = relevantChunks (retrieveRelevantContext m currentInput [])
      in if length chunks > 0 then [\<lparr>role = ''system'', content = Memories chunks\<rparr>] else [])"

text \<open>
  Every array of the first heap is in the second one, at its address and with its
  elements.
\<close>

definition unchanged :: "heap \<Rightarrow> heap \<Rightarrow> bool" where
  "unchanged h h' \<longleftrightarrow> take (length h) h' = h"

section \<open>Example inputs\<close>

text \<open>
  An environment in which every call to the outside throws, one in which the embedding
  service answers with a dense vector, and a session state with no field set.
\<close>

definition failing_environment :: environment where
  "failing_environment =
     \<lparr>extraApiEnabled = True, fetchEmbedding = (\<lambda>_. Throws),
      transformersDefined = False, loadTransformersJS = Some Throws,
      embeddingPipelineSet = False, createPipeline = Throws, runPipeline = (\<lambda>_. Throws),
      dateNow = 0, gameStateHistory = []\<rparr>"

definition answering_environment :: environment where
  "answering_environment =
     \<lparr>extraApiEnabled = True, fetchEmbedding = (\<lambda>_. Returns (Dense [1, - 1])),
      transformersDefined = True, loadTransformersJS = None,
      embeddingPipelineSet = True, createPipeline = Returns (),
      runPipeline = (\<lambda>_. Returns [1, - 1]),
      dateNow = 0, gameStateHistory = []\<rparr>"

definition no_variables :: variables where
  "no_variables =
     \<lparr>variables.location = None, variables.realm = None, variables.hp = None,
      variables.mp = None, items = None, relationships = None\<rparr>"

text \<open>
  A history of five turns, and an environment whose game state holds a history of one
  turn.
\<close>

definition example_history :: "message list" where
  "example_history =
     [\<lparr>role = ''user'', content = Plain (str ''u1'')\<rparr>,
      \<lparr>role = ''assistant'', content = Plain (str ''a1'')\<rparr>,
      \<lparr>role = ''user'', content = Plain (str ''u2'')\<rparr>,
      \<lparr>role = ''assistant'', content = Plain (str ''a2'')\<rparr>,
      \<lparr>role = ''user'', content = Plain (str ''u3'')\<rparr>,
      \<lparr>role = ''assistant'', content = Plain (str ''a3'')\<rparr>,
      \<lparr>role = ''user'', content = Plain (str ''u4'')\<rparr>,
      \<lparr>role = ''assistant'', content = Plain (str ''a4'')\<rparr>,
      \<lparr>role = ''user'', content = Plain (str ''u5'')\<rparr>,
      \<lparr>role = ''assistant'', content = Plain (str ''a5'')\<rparr>]"

definition ambient_environment :: environment where
  "ambient_environment =
     failing_environment\<lparr>gameStateHistory :=
       [\<lparr>role = ''user'', content = Plain (str ''u0'')\<rparr>,
        \<lparr>role = ''assistant'', content = Plain (str ''a0'')\<rparr>]\<rparr>"

text \<open>
  Two sparse vectors over the keys \<open>p\<close>, \<open>q\<close>, \<open>r\<close> and \<open>s\<close>, in different key orders; one
  weight is \<open>2 ^ 53\<close>, beyond which not every whole number is a double.
\<close>

definition big :: real where
  "big = 2 ^ 53"

definition heavy_vector :: jsobject where
  "heavy_vector =
     [(str ''p'', Num (Fin big)), (str ''q'', Num (Fin 1)), (str ''r'', Num (Fin 1))]"

definition light_vector :: jsobject where
  "light_vector =
     [(str ''r'', Num (Fin 1)), (str ''q'', Num (Fin 1)), (str ''p'', Num (Fin 1)),
      (str ''s'', Num (Fin 1))]"

section \<open>Properties of the arithmetic of doubles\<close>

lemma round_half_even_of_int: "round_half_even (of_int n) = n"
  by (simp add: round_half_even_def)

lemma round_half_even_nonneg: "0 \<le> x \<Longrightarrow> 0 \<le> round_half_even x"
  by (auto simp: round_half_even_def Let_def)

lemma round_half_even_nonpos: "x \<le> 0 \<Longrightarrow> round_half_even x \<le> 0"
proof -
  assume x: "x \<le> 0"
  show ?thesis
  proof (cases "x = 0")
    case True
    then show ?thesis by (simp add: round_half_even_def)
  next
    case False
    then have "\<lfloor>x\<rfloor> \<le> - 1" using x by (simp add: floor_le_iff)
    then show ?thesis by (auto simp: round_half_even_def Let_def)
  qed
qed

lemma round_half_even_ge_one: "1 \<le> x \<Longrightarrow> 1 \<le> round_half_even x"
proof -
  assume "1 \<le> x"
  then have "1 \<le> \<lfloor>x\<rfloor>" by simp
  then show ?thesis by (auto simp: round_half_even_def Let_def)
qed

text \<open>A real number within less than a half of a whole number rounds to it.\<close>

lemma round_half_even_near: "\<bar>x - of_int m\<bar> < 1 / 2 \<Longrightarrow> round_half_even x = m"
proof -
  assume near: "\<bar>x - of_int m\<bar> < 1 / 2"
  show ?thesis
  proof (cases "of_int m \<le> x")
    case True
    then have "\<lfloor>x\<rfloor> = m" using near by (intro floor_unique) auto
    then show ?thesis using near True by (simp add: round_half_even_def Let_def)
  next
    case False
    then have "\<lfloor>x\<rfloor> = m - 1" using near by (intro floor_unique) auto
    then show ?thesis using near False by (simp add: round_half_even_def Let_def)
  qed
qed

lemma ulp_exponent_ge: "- 1074 \<le> ulp_exponent x"
  by (simp add: ulp_exponent_def)

lemma ulp_exponent_eq:
  assumes "2 powi (e + 52) \<le> \<bar>x\<bar>" "\<bar>x\<bar> < 2 powi (e + 53)" "- 1074 \<le> e"
  shows "ulp_exponent x = e"
proof -
  have pos: "0 < \<bar>x\<bar>" using assms(1) by (smt (verit) zero_less_power_int)
  have a: "2 powr (of_int (e + 52)) = (2::real) powi (e + 52)"
    by (rule powr_real_of_int') simp_all
  have b: "2 powr (of_int (e + 52 + 1)) = (2::real) powi (e + 53)"
    using powr_real_of_int'[of 2 "e + 53"] by (simp add: add.commute)
  have "2 powr (of_int (e + 52)) \<le> \<bar>x\<bar> \<and> \<bar>x\<bar> < 2 powr (of_int (e + 52 + 1))"
    using assms(1,2) unfolding a b by simp
  then have "\<lfloor>log 2 \<bar>x\<bar>\<rfloor> = e + 52"
    using pos floor_log_eq_powr_iff[of "\<bar>x\<bar>" 2 "e + 52"] by simp
  then show ?thesis using assms(3) by (simp add: ulp_exponent_def)
qed

lemma tiny_pos: "0 < tiny"
  by (simp only: tiny_def zero_less_power_int zero_less_numeral)

text \<open>The last bit of a number is not above the number.\<close>

lemma ulp_le:
  assumes "tiny \<le> \<bar>x\<bar>"
  shows "2 powi (ulp_exponent x) \<le> \<bar>x\<bar>"
proof -
  have pos: "0 < \<bar>x\<bar>" using assms tiny_pos by linarith
  define k where "k = \<lfloor>log 2 \<bar>x\<bar>\<rfloor>"
  have "2 powr (of_int k) \<le> \<bar>x\<bar>"
    using pos floor_log_eq_powr_iff[of "\<bar>x\<bar>" 2 k] by (simp add: k_def)
  then have lo: "2 powi k \<le> \<bar>x\<bar>" by (simp add: powr_real_of_int')
  have "(2::real) powi (k - 52) \<le> 2 powi k" by (intro power_int_increasing) simp_all
  then have shifted: "2 powi (k - 52) \<le> \<bar>x\<bar>" using lo by linarith
  have "ulp_exponent x = - 1074 \<or> ulp_exponent x = k - 52"
    by (simp add: ulp_exponent_def k_def[symmetric] max_def)
  then show ?thesis
  proof
    assume "ulp_exponent x = - 1074"
    then show ?thesis using assms by (simp only: tiny_def)
  next
    assume "ulp_exponent x = k - 52"
    then show ?thesis using shifted by simp
  qed
qed

lemma power_below_huge: "k \<le> 1024 \<Longrightarrow> (2::real) ^ k \<le> huge"
  unfolding huge_def by (rule power_increasing) simp_all

text \<open>The rounding of a number of a known range.\<close>

lemma round64_eval:
  assumes "2 powi (e + 52) \<le> \<bar>x\<bar>" "\<bar>x\<bar> < 2 powi (e + 53)" "- 1074 \<le> e"
    and "round_half_even (x / 2 powi e) = m"
    and "\<bar>of_int m * 2 powi e\<bar> < huge"
  shows "round64 x = Fin (of_int m * 2 powi e)"
proof -
  have "x \<noteq> 0" using assms(1) by (smt (verit) zero_less_power_int abs_zero)
  then show ?thesis
    using ulp_exponent_eq[OF assms(1-3)] assms(4,5) by (simp add: round64_def Let_def)
qed

text \<open>The whole numbers below \<open>2 ^ 53\<close> are doubles: rounding leaves them as they are.\<close>

lemma round64_int:
  assumes "\<bar>n\<bar> < 2 ^ 53"
  shows "round64 (of_int n) = Fin (of_int n)"
proof (cases "n = 0")
  case True
  then show ?thesis by (simp add: round64_def)
next
  case False
  define x :: real where "x = of_int n"
  have "1 \<le> \<bar>n\<bar>" using False by simp
  then have "(1::real) \<le> of_int \<bar>n\<bar>" by (simp only: of_int_1_le_iff)
  then have x1: "1 \<le> \<bar>x\<bar>" by (simp add: x_def)
  have "(of_int \<bar>n\<bar> :: real) < of_int (2 ^ 53)" using assms by (simp only: of_int_less_iff)
  then have x53: "\<bar>x\<bar> < 2 ^ 53" by (simp add: x_def)
  define k where "k = \<lfloor>log 2 \<bar>x\<bar>\<rfloor>"
  have kk: "2 powr (of_int k) \<le> \<bar>x\<bar> \<and> \<bar>x\<bar> < 2 powr (of_int (k + 1))"
    using x1 floor_log_eq_powr_iff[of "\<bar>x\<bar>" 2 k] by (simp add: k_def)
  then have lo: "2 powi k \<le> \<bar>x\<bar>" and hi: "\<bar>x\<bar> < 2 powi (k + 1)"
    using powr_real_of_int'[of 2 k] powr_real_of_int'[of 2 "k + 1"] by simp_all
  have k0: "0 \<le> k"
  proof (rule ccontr)
    assume "\<not> 0 \<le> k"
    then have "k + 1 \<le> 0" by simp
    then have "(2::real) powi (k + 1) \<le> 2 powi 0" by (intro power_int_increasing) simp_all
    then show False using hi x1 by simp
  qed
  have k52: "k \<le> 52"
  proof (rule ccontr)
    assume "\<not> k \<le> 52"
    then have "53 \<le> k" by simp
    then have "(2::real) powi 53 \<le> 2 powi k" by (intro power_int_increasing) simp_all
    then show False using lo x53 by simp
  qed
  define e where "e = k - 52"
  have ue: "ulp_exponent x = e"
    using k0 by (simp add: ulp_exponent_def k_def[symmetric] e_def)
  have scale: "x / 2 powi e = of_int (n * 2 ^ nat (52 - k))"
  proof -
    have "e = - int (nat (52 - k))" using k52 by (simp add: e_def)
    then have "(2::real) powi e = 1 / 2 powi (int (nat (52 - k)))"
      by (simp only: power_int_minus_divide)
    then have "(2::real) powi e = 1 / 2 ^ nat (52 - k)"
      by (simp only: power_int_of_nat)
    then show ?thesis by (simp add: x_def)
  qed
  have m: "round_half_even (x / 2 powi e) = n * 2 ^ nat (52 - k)"
    unfolding scale by (rule round_half_even_of_int)
  have restore: "of_int (n * 2 ^ nat (52 - k)) * 2 powi e = x"
    using scale by (metis nonzero_eq_divide_eq power_int_eq_0_iff zero_neq_numeral)
  have "(2::real) ^ 53 \<le> huge" by (rule power_below_huge) simp
  then have small: "\<not> huge \<le> \<bar>x\<bar>" using x53 by linarith
  have y: "of_int (round_half_even (x / 2 powi e)) * 2 powi e = x"
    using m restore by simp
  have "x \<noteq> 0" using False by (simp add: x_def)
  then have "round64 x = Fin x"
    unfolding round64_def Let_def ue y using small by simp
  then show ?thesis by (simp add: x_def)
qed

lemma round64_nat: "n < 2 ^ 53 \<Longrightarrow> round64 (of_nat n) = Fin (of_nat n)"
  using round64_int[of "int n"] by (simp add: of_nat_less_numeral_power_cancel_iff)

lemma round64_small [simp]:
  "round64 0 = Fin 0" "round64 1 = Fin 1" "round64 (- 1) = Fin (- 1)" "round64 2 = Fin 2"
  "round64 3 = Fin 3" "round64 4 = Fin 4"
  using round64_int[of 0] round64_int[of 1] round64_int[of "- 1"] round64_int[of 2]
    round64_int[of 3] round64_int[of 4]
  by simp_all

text \<open>Rounding keeps the sign, and gives a double.\<close>

lemma round64_nonneg: "0 \<le> x \<Longrightarrow> not_negative (round64 x) \<and> round64 x \<noteq> NaN"
proof -
  assume "0 \<le> x"
  then have "0 \<le> x / 2 powi (ulp_exponent x)" by simp
  then have "0 \<le> round_half_even (x / 2 powi (ulp_exponent x))"
    by (rule round_half_even_nonneg)
  then have "0 \<le> (of_int (round_half_even (x / 2 powi (ulp_exponent x))) :: real)
                 * 2 powi (ulp_exponent x)"
    by simp
  then show ?thesis using \<open>0 \<le> x\<close> by (auto simp: round64_def Let_def)
qed

lemma round64_nonpos: "x \<le> 0 \<Longrightarrow> \<not> num_gt (round64 x) (Fin 0)"
proof -
  assume x: "x \<le> 0"
  then have "x / 2 powi (ulp_exponent x) \<le> 0" by (simp add: divide_nonpos_pos)
  then have "round_half_even (x / 2 powi (ulp_exponent x)) \<le> 0"
    by (rule round_half_even_nonpos)
  then have "(of_int (round_half_even (x / 2 powi (ulp_exponent x))) :: real)
                 * 2 powi (ulp_exponent x) \<le> 0"
    by (simp add: mult_nonpos_nonneg)
  then show ?thesis using x by (auto simp: round64_def Let_def)
qed

lemma round64_positive:
  assumes "tiny \<le> x"
  shows "num_gt (round64 x) (Fin 0)"
proof -
  have pos: "0 < x" using assms tiny_pos by linarith
  have "2 powi (ulp_exponent x) \<le> x" using ulp_le[of x] assms pos by simp
  then have "1 \<le> x / 2 powi (ulp_exponent x)" by (simp add: le_divide_eq)
  then have "1 \<le> round_half_even (x / 2 powi (ulp_exponent x))"
    by (rule round_half_even_ge_one)
  then have "0 < (of_int (round_half_even (x / 2 powi (ulp_exponent x))) :: real)
                 * 2 powi (ulp_exponent x)"
    by simp
  then show ?thesis using pos by (auto simp: round64_def Let_def)
qed

lemma double_multiple:
  assumes "- 1074 \<le> e"
  shows "double (of_int m * 2 powi e)"
proof -
  have "(2::real) powi e = 2 powi (e + 1074) * tiny"
    unfolding tiny_def by (metis add.commute add.right_neutral add_uminus_conv_diff
        diff_add_cancel power_int_add zero_neq_numeral add.assoc minus_add_cancel)
  also have "(2::real) powi (e + 1074) = 2 ^ nat (e + 1074)"
    using assms by (simp add: power_int_def)
  finally have "of_int m * 2 powi e / tiny = (of_int (m * 2 ^ nat (e + 1074)) :: real)"
    using tiny_pos by simp
  then show ?thesis unfolding double_def by (simp only: floor_of_int)
qed

lemma double_zero: "double 0"
  by (simp add: double_def)

lemma machine_number_round64: "machine_number (round64 x)"
  using double_multiple[OF ulp_exponent_ge] double_zero
  by (auto simp: round64_def Let_def)

text \<open>Two doubles that differ have a difference that does not round to zero.\<close>

lemma double_difference:
  assumes "double x" "double y" "x < y"
  shows "tiny \<le> y - x"
proof -
  define a where "a = \<lfloor>x / tiny\<rfloor>"
  define b where "b = \<lfloor>y / tiny\<rfloor>"
  have "of_int a = x / tiny" "of_int b = y / tiny"
    using assms(1,2) unfolding double_def a_def b_def by simp_all
  then have x: "x = of_int a * tiny" and y: "y = of_int b * tiny"
    using tiny_pos by simp_all
  have "(of_int a :: real) < of_int b"
    using assms(3) tiny_pos unfolding x y by (simp add: mult_less_cancel_right)
  then have "a + 1 \<le> b" by simp
  then have "(of_int a :: real) + 1 \<le> of_int b" by (metis of_int_1 of_int_add of_int_le_iff)
  then have "(of_int b - of_int a :: real) * tiny \<ge> 1 * tiny"
    using tiny_pos by (intro mult_right_mono) simp_all
  then show ?thesis unfolding x y by (simp add: algebra_simps)
qed

lemma num_add_commute: "num_add a b = num_add b a"
  by (cases a; cases b) (simp_all add: add.commute)

lemma num_mul_commute: "num_mul a b = num_mul b a"
  by (cases a; cases b) (simp_all add: mult.commute)

lemma machine_number_ops:
  "machine_number (num_add a b)" if "machine_number a" "machine_number b"
  using that by (cases a; cases b) (simp_all add: machine_number_round64)

lemma machine_number_div: "machine_number (num_div a b)"
  using double_zero
  by (cases a; cases b) (simp_all add: machine_number_round64 signed_infinity_def)

text \<open>The comparator on two similarities that are doubles or the positive infinity.\<close>

lemma compare_doubles:
  assumes "machine_number a" "machine_number b"
    and "a \<noteq> NaN" "b \<noteq> NaN" "a \<noteq> NegInfinity" "b \<noteq> NegInfinity"
  shows "num_gt (num_sub b a) (Fin 0) \<longleftrightarrow> num_gt b a"
proof (cases a; cases b)
  fix x y
  assume ab: "a = Fin x" "b = Fin y"
  then have d: "double x" "double y" using assms(1,2) by simp_all
  show ?thesis
  proof (cases "x < y")
    case True
    then show ?thesis
      using round64_positive[OF double_difference[OF d True]] by (simp add: ab num_sub_def)
  next
    case False
    then show ?thesis
      using round64_nonpos[of "y - x"] by (simp add: ab num_sub_def)
  qed
qed (use assms in \<open>simp_all add: num_sub_def\<close>)

text \<open>The rounding of a number of a known range, with the power of two written out.\<close>

lemma round64_eval_up:
  assumes "2 ^ (n + 52) \<le> \<bar>x\<bar>" "\<bar>x\<bar> < 2 ^ (n + 53)"
    and "round_half_even (x / 2 ^ n) = m" "\<bar>of_int m * 2 ^ n\<bar> < huge"
  shows "round64 x = Fin (of_int m * 2 ^ n)"
proof -
  have p: "(2::real) powi (int n) = 2 ^ n" by simp
  have "(2::real) powi (int n + 52) = 2 ^ (n + 52)" "(2::real) powi (int n + 53) = 2 ^ (n + 53)"
    using power_int_of_nat[of "2::real" "n + 52"] power_int_of_nat[of "2::real" "n + 53"]
    by (simp_all only: of_nat_add of_nat_numeral)
  then show ?thesis
    using round64_eval[of "int n" x m] assms unfolding p by simp
qed

lemma round_half_even_lower: "of_int a \<le> x \<Longrightarrow> a \<le> round_half_even x"
proof -
  assume "of_int a \<le> x"
  then have "a \<le> \<lfloor>x\<rfloor>" by (simp add: le_floor_iff)
  then show ?thesis by (auto simp: round_half_even_def Let_def)
qed

lemma round_half_even_upper: "x \<le> of_int b \<Longrightarrow> round_half_even x \<le> b"
proof -
  assume x: "x \<le> of_int b"
  then have f: "\<lfloor>x\<rfloor> \<le> b" by (simp add: floor_le_iff)
  show ?thesis
  proof (cases "x = of_int \<lfloor>x\<rfloor>")
    case True
    then have "x - of_int \<lfloor>x\<rfloor> = 0" by simp
    then show ?thesis using f by (simp add: round_half_even_def Let_def)
  next
    case False
    moreover have "of_int \<lfloor>x\<rfloor> \<le> x" by (rule of_int_floor_le)
    ultimately have "of_int \<lfloor>x\<rfloor> < x" by linarith
    then have "(of_int \<lfloor>x\<rfloor> :: real) < of_int b" using x by linarith
    then have "\<lfloor>x\<rfloor> + 1 \<le> b" by simp
    then show ?thesis by (auto simp: round_half_even_def Let_def)
  qed
qed

lemma round64_eval_down:
  assumes "2 ^ 52 \<le> \<bar>x\<bar> * 2 ^ n" "\<bar>x\<bar> * 2 ^ n < 2 ^ 53" "n \<le> 1074"
    and "round_half_even (x * 2 ^ n) = m"
  shows "round64 x = Fin (of_int m / 2 ^ n)"
proof -
  have p: "(2::real) powi (- int n) = 1 / 2 ^ n"
    by (simp add: power_int_minus_divide)
  have lo: "(2::real) powi (- int n + 52) = 2 ^ 52 / 2 ^ n"
    using power_int_add[of "2::real" "- int n" 52] by (simp add: p)
  have hi: "(2::real) powi (- int n + 53) = 2 ^ 53 / 2 ^ n"
    using power_int_add[of "2::real" "- int n" 53] by (simp add: p)
  have 1: "2 powi (- int n + 52) \<le> \<bar>x\<bar>"
    unfolding lo using assms(1) by (simp add: divide_le_eq)
  have 2: "\<bar>x\<bar> < 2 powi (- int n + 53)"
    unfolding hi using assms(2) by (simp add: less_divide_eq)
  have 3: "round_half_even (x / 2 powi (- int n)) = m"
    unfolding p using assms(4) by simp
  have "\<bar>real_of_int m\<bar> \<le> 2 ^ 53"
  proof -
    have "\<bar>x * 2 ^ n\<bar> < 2 ^ 53" using assms(2) by (simp add: abs_mult)
    then have b: "of_int (- (2 ^ 53)) \<le> x * 2 ^ n" "x * 2 ^ n \<le> of_int (2 ^ 53)" by simp_all
    have "- (2 ^ 53) \<le> round_half_even (x * 2 ^ n)" "round_half_even (x * 2 ^ n) \<le> 2 ^ 53"
      using round_half_even_lower[OF b(1)] round_half_even_upper[OF b(2)] by simp_all
    then have "- (2 ^ 53) \<le> m" "m \<le> 2 ^ 53" using assms(4) by simp_all
    then have "(of_int (- (2 ^ 53)) :: real) \<le> of_int m" "(of_int m :: real) \<le> of_int (2 ^ 53)"
      by (simp_all only: of_int_le_iff)
    then show ?thesis by simp
  qed
  moreover have "(1::real) \<le> 2 ^ n" by simp
  ultimately have "\<bar>real_of_int m\<bar> / 2 ^ n \<le> 2 ^ 53"
    by (smt (verit) divide_le_eq_1_pos frac_le zero_less_power zero_le_power abs_ge_zero div_by_1)
  moreover have "(2::real) ^ 53 < huge"
    unfolding huge_def by (rule power_strict_increasing) simp_all
  ultimately have 4: "\<bar>of_int m * 2 powi (- int n)\<bar> < huge"
    unfolding p by (simp add: abs_mult) 
  show ?thesis
    using round64_eval[OF 1 2 _ 3 4] assms(3) unfolding p by simp
qed

text \<open>Rounding to a whole number moves a number by a half at most.\<close>

lemma round_half_even_error: "\<bar>of_int (round_half_even x) - x\<bar> \<le> 1 / 2"
proof -
  have "of_int \<lfloor>x\<rfloor> \<le> x" "x < of_int \<lfloor>x\<rfloor> + 1" by linarith+
  then show ?thesis by (auto simp: round_half_even_def Let_def)
qed

text \<open>
  The rounding of a positive number of the normal range stays in the closed range between
  the two powers of two around the number, and moves it by half a last bit at most.
\<close>

lemma round64_normal:
  assumes "2 powi k \<le> x" "x < 2 powi (k + 1)" "- 1022 \<le> k" "k \<le> 1022"
  shows "\<exists>y. round64 x = Fin y \<and> 2 powi k \<le> y \<and> y \<le> 2 powi (k + 1)
             \<and> \<bar>y - x\<bar> \<le> 2 powi (k - 53)"
proof -
  define e where "e = k - 52"
  define p :: real where "p = 2 powi e"
  define m where "m = round_half_even (x / p)"
  have ppos: "0 < p" by (simp add: p_def)
  have xpos: "0 < x" using assms(1) by (smt (verit) zero_less_power_int)
  have e52: "k = 52 + e" and e53: "k + 1 = 53 + e" and e1: "k - 53 = - 1 + e"
    by (simp_all add: e_def)
  have k1: "(2::real) powi k = 2 ^ 52 * p"
    unfolding p_def by (subst e52, subst power_int_add) simp_all
  have k2: "(2::real) powi (k + 1) = 2 ^ 53 * p"
    unfolding p_def by (subst e53, subst power_int_add) simp_all
  have k3: "(2::real) powi (k - 53) = p / 2"
    unfolding p_def by (subst e1, subst power_int_add) simp_all
  have lo: "2 powi (e + 52) \<le> \<bar>x\<bar>" and hi: "\<bar>x\<bar> < 2 powi (e + 53)" and e: "- 1074 \<le> e"
    using assms xpos by (simp_all add: e_def add.commute)
  have q: "of_int (2 ^ 52) \<le> x / p" "x / p \<le> of_int (2 ^ 53)"
    using assms(1,2) ppos unfolding k1 k2 by (simp_all add: le_divide_eq divide_le_eq)
  have "2 ^ 52 \<le> m" "m \<le> 2 ^ 53"
    unfolding m_def using round_half_even_lower[OF q(1)] round_half_even_upper[OF q(2)] by simp_all
  then have "(of_int (2 ^ 52) :: real) \<le> of_int m" "(of_int m :: real) \<le> of_int (2 ^ 53)"
    by (simp_all only: of_int_le_iff)
  then have mr: "2 ^ 52 \<le> (of_int m :: real)" "(of_int m :: real) \<le> 2 ^ 53" by simp_all
  have y1: "2 powi k \<le> of_int m * p" unfolding k1 using mr(1) ppos by simp
  have y2: "of_int m * p \<le> 2 powi (k + 1)" unfolding k2 using mr(2) ppos by simp
  have "(2::real) powi (k + 1) \<le> 2 powi 1023"
    using assms(4) by (intro power_int_increasing) simp_all
  moreover have "(2::real) powi 1023 < huge"
  proof -
    have "(2::real) ^ 1023 < 2 ^ 1024" by (rule power_strict_increasing) simp_all
    then show ?thesis unfolding huge_def by (simp only: power_int_numeral)
  qed
  moreover have "0 \<le> of_int m * p" using mr(1) ppos by simp
  ultimately have fin: "\<bar>of_int m * 2 powi e\<bar> < huge" using y2 unfolding p_def by linarith
  have r: "round64 x = Fin (of_int m * p)"
    unfolding p_def using round64_eval[OF lo hi e _ fin] m_def p_def by simp
  have "\<bar>of_int m - x / p\<bar> \<le> 1 / 2" unfolding m_def by (rule round_half_even_error)
  then have "\<bar>of_int m - x / p\<bar> * p \<le> 1 / 2 * p" using ppos by (simp only: mult_le_cancel_right_pos)
  moreover have "\<bar>of_int m - x / p\<bar> * p = \<bar>of_int m * p - x\<bar>"
  proof -
    have "(of_int m - x / p) * p = of_int m * p - x"
      using ppos by (simp add: left_diff_distrib)
    then have "\<bar>of_int m * p - x\<bar> = \<bar>of_int m - x / p\<bar> * \<bar>p\<bar>"
      by (simp only: abs_mult[symmetric])
    then show ?thesis using ppos by simp
  qed
  ultimately have y3: "\<bar>of_int m * p - x\<bar> \<le> 2 powi (k - 53)" unfolding k3 by simp
  show ?thesis using r y1 y2 y3 by blast
qed

text \<open>The same between two powers of two that are further apart.\<close>

lemma round64_bounds:
  assumes "2 powi i \<le> x" "x \<le> 2 powi j" "- 1022 \<le> i" "j \<le> 1023"
  shows "\<exists>y. round64 x = Fin y \<and> 2 powi i \<le> y \<and> y \<le> 2 powi j
             \<and> \<bar>y - x\<bar> \<le> x / 2 ^ 53"
proof -
  have xpos: "0 < x" using assms(1) by (smt (verit) zero_less_power_int)
  define k where "k = \<lfloor>log 2 x\<rfloor>"
  have "2 powr (of_int k) \<le> x \<and> x < 2 powr (of_int (k + 1))"
    using xpos floor_log_eq_powr_iff[of x 2 k] by (simp add: k_def)
  then have b: "2 powi k \<le> x" "x < 2 powi (k + 1)"
    using powr_real_of_int'[of 2 k] powr_real_of_int'[of 2 "k + 1"] by simp_all
  have ik: "i \<le> k"
  proof (rule ccontr)
    assume "\<not> i \<le> k"
    then have "k + 1 \<le> i" by simp
    then have "(2::real) powi (k + 1) \<le> 2 powi i" by (intro power_int_increasing) simp_all
    then show False using b(2) assms(1) by linarith
  qed
  have kj: "k \<le> j"
  proof (rule ccontr)
    assume "\<not> k \<le> j"
    then have "j + 1 \<le> k" by simp
    then have "(2::real) powi (j + 1) \<le> 2 powi k" by (intro power_int_increasing) simp_all
    moreover have "(2::real) powi j < 2 powi (j + 1)"
      by (intro power_int_strict_increasing) simp_all
    ultimately show False using b(1) assms(2) by linarith
  qed
  have err: "(2::real) powi (k - 53) \<le> x / 2 ^ 53"
  proof -
    have "(2::real) powi (k - 53) = 2 powi k / 2 ^ 53"
      using power_int_add[of "2::real" k "- 53"] by (simp add: power_int_minus_divide)
    then show ?thesis using b(1) by (simp add: divide_right_mono)
  qed
  show ?thesis
  proof (cases "k = j")
    case True
    then have x: "x = 2 powi j" using b(1) assms(2) by simp
    have "2 powi (j - 52 + 52) \<le> \<bar>x\<bar>" "\<bar>x\<bar> < 2 powi (j - 52 + 53)"
      using b True xpos by (simp_all add: add.commute)
    moreover have "- 1074 \<le> j - 52" using ik True assms(3) by simp
    moreover have "x / 2 powi (j - 52) = of_int (2 ^ 52)"
      using power_int_add[of "2::real" "j - 52" 52] by (simp add: x)
    then have "round_half_even (x / 2 powi (j - 52)) = 2 ^ 52"
      by (simp only: round_half_even_of_int)
    moreover have m: "of_int (2 ^ 52) * 2 powi (j - 52) = x"
      using power_int_add[of "2::real" "j - 52" 52] by (simp add: x)
    have "x \<le> 2 powi 1023" unfolding x using assms(4) by (intro power_int_increasing) simp_all
    moreover have "(2::real) powi 1023 < huge"
    proof -
      have "(2::real) ^ 1023 < 2 ^ 1024" by (rule power_strict_increasing) simp_all
      then show ?thesis unfolding huge_def by (simp only: power_int_numeral)
    qed
    ultimately have "round64 x = Fin (of_int (2 ^ 52) * 2 powi (j - 52))"
      using xpos m by (intro round64_eval) simp_all
    then have "round64 x = Fin x" by (simp only: m)
    then show ?thesis using assms(1,2) xpos by simp
  next
    case False
    then have k: "k + 1 \<le> j" using kj by simp
    then have "k \<le> 1022" using assms(4) by simp
    moreover have "- 1022 \<le> k" using ik assms(3) by simp
    ultimately obtain y where y: "round64 x = Fin y" "2 powi k \<le> y" "y \<le> 2 powi (k + 1)"
      "\<bar>y - x\<bar> \<le> 2 powi (k - 53)"
      using round64_normal[OF b] by blast
    have "(2::real) powi i \<le> 2 powi k" using ik by (intro power_int_increasing) simp_all
    moreover have "(2::real) powi (k + 1) \<le> 2 powi j"
      using k by (intro power_int_increasing) simp_all
    ultimately show ?thesis using y err by (intro exI[of _ y]) linarith
  qed
qed

section \<open>Properties of the featurizer\<close>

lemma set_prop_not_Nil: "set_prop obj key v \<noteq> []"
  by (cases obj) (auto split: if_splits)

lemma length_set_prop: "length (set_prop obj key v) \<le> Suc (length obj)"
  by (induction obj) auto

lemma fold_count_word_Nil_iff:
  "fold count_word ws acc = [] \<longleftrightarrow> acc = [] \<and> (\<forall>w\<in>set ws. \<not> length w > 1)"
  by (induction ws arbitrary: acc) (auto simp: count_word_def set_prop_not_Nil)

lemma length_insert_sorted: "length (insert_sorted cmp x ys) = Suc (length ys)"
  by (induction ys) auto

lemma length_js_sort: "length (js_sort cmp xs) = length xs"
  by (induction xs) (auto simp: js_sort_def length_insert_sorted)

lemma extractKeywords_Nil_iff: "extractKeywords text = [] \<longleftrightarrow> \<not> has_term text"
proof -
  have "js_sort compare_weight (fold count_word (match_words text) []) = []
          \<longleftrightarrow> fold count_word (match_words text) [] = []"
    using length_js_sort[of compare_weight "fold count_word (match_words text) []"]
    by (metis length_0_conv)
  then have "extractKeywords text = [] \<longleftrightarrow> fold count_word (match_words text) [] = []"
    by (simp add: extractKeywords_def Let_def)
  then show ?thesis
    by (simp add: fold_count_word_Nil_iff has_term_def list_ex_iff)
qed

lemma fold_set_prop_Nil_iff:
  "fold (\<lambda>(word, weight) vec. set_prop vec word weight) kws acc = [] \<longleftrightarrow> kws = [] \<and> acc = []"
proof (induction kws arbitrary: acc)
  case Nil
  then show ?case by simp
next
  case (Cons kw kws)
  obtain word weight where kw: "kw = (word, weight)" by (cases kw)
  show ?case by (simp add: kw Cons.IH set_prop_not_Nil)
qed

text \<open>The keyword vector is empty exactly when the text has no term of length two or more.\<close>

lemma createKeywordVector_Nil_iff: "createKeywordVector text = [] \<longleftrightarrow> \<not> has_term text"
  by (simp add: createKeywordVector_def fold_set_prop_Nil_iff extractKeywords_Nil_iff)

lemma length_fold_set_prop:
  "length (fold (\<lambda>(word, weight) vec. set_prop vec word weight) kws acc) \<le> length acc + length kws"
proof (induction kws arbitrary: acc)
  case Nil
  then show ?case by simp
next
  case (Cons kw kws)
  obtain word weight where kw: "kw = (word, weight)" by (cases kw)
  have "length (fold (\<lambda>(word, weight) vec. set_prop vec word weight) kws (set_prop acc word weight))
          \<le> length (set_prop acc word weight) + length kws"
    by (rule Cons.IH)
  also have "\<dots> \<le> Suc (length acc) + length kws"
    using length_set_prop[of acc word weight] by simp
  finally show ?case by (simp add: kw)
qed

text \<open>The keyword vector has at most 20 keys.\<close>

lemma length_createKeywordVector: "length (createKeywordVector text) \<le> 20"
proof -
  have "length (createKeywordVector text) \<le> length (extractKeywords text)"
    using length_fold_set_prop[of "extractKeywords text" "[]"] by (simp add: createKeywordVector_def)
  also have "\<dots> \<le> 20" by (simp add: extractKeywords_def Let_def)
  finally show ?thesis .
qed

text \<open>
  C9. The claim: for every text, \<open>createKeywordVector\<close> gives a mapping whose values are all
  positive integers, with at most 20 keys, empty only when the text has no term of length
  two or more. The bound on the keys and the condition for emptiness hold
  (\<open>length_createKeywordVector\<close>, \<open>createKeywordVector_Nil_iff\<close>). The values do not: the
  counter \<open>wordFreq\<close> is a plain object, so the first read of \<open>wordFreq["constructor"]\<close>
  finds the function inherited from \<open>Object.prototype\<close> instead of \<open>undefined\<close>, and
  \<open>+ 1\<close> appends to its text. For the one-word text \<^verbatim>\<open>constructor\<close> the vector holds
  a string under that key, not the count 1.
\<close>

theorem createKeywordVector_inherited_key:
  "createKeywordVector (str ''constructor'')
     = [(str ''constructor'', FunText (str ''constructor'') 1)]
   \<and> \<not> list_all (\<lambda>(key, w). positive_integer w) (createKeywordVector (str ''constructor''))"
  by (simp add: createKeywordVector_def extractKeywords_def str_def is_cjk_def is_latin_def
      count_word_def get_prop_def object_prototype_keys_def js_sort_def)


section \<open>Properties of the similarity scorer\<close>

text \<open>The dense path treats its two arguments alike.\<close>

lemma fold_array_step_swap:
  "fold (array_step b a) is (d, y, x) =
     (case fold (array_step a b) is (d, x, y) of (d', x', y') \<Rightarrow> (d', y', x'))"
  by (induction "is" arbitrary: d x y) (simp_all add: array_step_def num_mul_commute)

lemma calculateArrayCosineSimilarity_commute:
  "calculateArrayCosineSimilarity a b = calculateArrayCosineSimilarity b a"
proof -
  obtain d x y where f: "fold (array_step a b) [0..<min (length a) (length b)] (Fin 0, Fin 0, Fin 0)
                           = (d, x, y)"
    by (metis prod_cases3)
  then have "fold (array_step b a) [0..<min (length b) (length a)] (Fin 0, Fin 0, Fin 0)
               = (d, y, x)"
    using fold_array_step_swap[of b a _ "Fin 0" "Fin 0" "Fin 0"] by (simp add: min.commute)
  then show ?thesis
    using f by (auto simp: calculateArrayCosineSimilarity_def Let_def num_mul_commute)
qed


lemma not_negative_mul: "not_negative a \<Longrightarrow> not_negative b \<Longrightarrow> not_negative (num_mul a b)"
  by (cases a; cases b) (simp_all add: round64_nonneg signed_infinity_def)

lemma not_negative_sqrt: "not_negative a \<Longrightarrow> not_negative (num_sqrt a)"
  by (cases a) (simp_all add: round64_nonneg)

lemma not_negative_div: "not_negative a \<Longrightarrow> not_negative b \<Longrightarrow> not_negative (num_div a b)"
  by (cases a; cases b) (simp_all add: round64_nonneg signed_infinity_def)

lemma not_negative_quotient:
  assumes "not_negative d" "not_negative x" "not_negative y"
  shows "not_negative (if x = Fin 0 \<or> y = Fin 0 then Fin 0
                       else num_div d (num_mul (num_sqrt x) (num_sqrt y)))"
  using assms by (simp add: not_negative_div not_negative_mul not_negative_sqrt)





lemma set_js_set_aux:
  "set (fold (\<lambda>k s. if k \<in> set s then s else s @ [k]) xs acc) = set acc \<union> set xs"
  by (induction xs arbitrary: acc) auto

lemma distinct_js_set_aux:
  "distinct acc \<Longrightarrow> distinct (fold (\<lambda>k s. if k \<in> set s then s else s @ [k]) xs acc)"
  by (induction xs arbitrary: acc) auto

lemma set_js_set: "set (js_set xs) = set xs"
  by (simp add: js_set_def set_js_set_aux)

lemma distinct_js_set: "distinct (js_set xs)"
  by (simp add: js_set_def distinct_js_set_aux)

lemma set_all_keys: "set (all_keys u v) = fst ` set u \<union> fst ` set v"
  by (simp add: all_keys_def set_js_set)



text \<open>Whole numbers from zero up, below \<open>2 ^ 53\<close>: the loops compute with them exactly.\<close>

lemma round64_whole:
  assumes "0 \<le> x" "of_int \<lfloor>x\<rfloor> = x" "x < 2 ^ 53"
  shows "round64 x = Fin x"
proof -
  have "(of_int \<lfloor>x\<rfloor> :: real) < of_int (2 ^ 53)" using assms(2,3) by simp
  then have "\<lfloor>x\<rfloor> < 2 ^ 53" by (simp only: of_int_less_iff)
  moreover have "0 \<le> \<lfloor>x\<rfloor>" using assms(1) by simp
  ultimately have "\<bar>\<lfloor>x\<rfloor>\<bar> < 2 ^ 53" by simp
  from round64_int[OF this] show ?thesis by (simp only: assms(2))
qed

lemma whole_add: "of_int \<lfloor>x\<rfloor> = x \<Longrightarrow> of_int \<lfloor>y\<rfloor> = y \<Longrightarrow> of_int \<lfloor>x + y\<rfloor> = x + (y::real)"
  by (metis floor_of_int of_int_add)

lemma whole_mult: "of_int \<lfloor>x\<rfloor> = x \<Longrightarrow> of_int \<lfloor>y\<rfloor> = y \<Longrightarrow> of_int \<lfloor>x * y\<rfloor> = x * (y::real)"
  by (metis floor_of_int of_int_mult)

lemma product_le_squares: "0 \<le> x \<Longrightarrow> 0 \<le> y \<Longrightarrow> x * y \<le> x * x + y * (y::real)"
proof -
  assume "0 \<le> x" "0 \<le> y"
  then have "0 \<le> x * y" by simp
  moreover have "2 * (x * y) \<le> x * x + y * y"
    using sum_squares_bound[of x y] by (simp add: power2_eq_square)
  ultimately show ?thesis by linarith
qed

lemma fold_object_step_exact:
  assumes "\<forall>k\<in>set ks. weight_of u k = Fin (f k) \<and> weight_of v k = Fin (g k)
             \<and> 0 \<le> f k \<and> of_int \<lfloor>f k\<rfloor> = f k \<and> 0 \<le> g k \<and> of_int \<lfloor>g k\<rfloor> = g k"
    and "0 \<le> d" "of_int \<lfloor>d\<rfloor> = d" "0 \<le> a" "of_int \<lfloor>a\<rfloor> = a" "0 \<le> b" "of_int \<lfloor>b\<rfloor> = b"
    and "d \<le> a + b"
    and "a + b + (\<Sum>k\<leftarrow>ks. f k * f k + g k * g k) < 2 ^ 53"
  shows "fold (object_step u v) ks (Fin d, Fin a, Fin b) =
           (Fin (d + (\<Sum>k\<leftarrow>ks. f k * g k)), Fin (a + (\<Sum>k\<leftarrow>ks. f k * f k)),
            Fin (b + (\<Sum>k\<leftarrow>ks. g k * g k)))"
  using assms
proof (induction ks arbitrary: d a b)
  case Nil
  then show ?case by simp
next
  case (Cons k ks)
  define x where "x = f k"
  define y where "y = g k"
  define rest where "rest = (\<Sum>k\<leftarrow>ks. f k * f k + g k * g k)"
  have w: "weight_of u k = Fin x" "weight_of v k = Fin y"
    and x: "0 \<le> x" "of_int \<lfloor>x\<rfloor> = x" and y: "0 \<le> y" "of_int \<lfloor>y\<rfloor> = y"
    using Cons.prems(1) by (simp_all add: x_def y_def)
  have rest0: "0 \<le> rest"
    unfolding rest_def by (rule sum_list_nonneg) (use Cons.prems(1) in auto)
  have total: "a + b + (x * x + y * y) + rest < 2 ^ 53"
    using Cons.prems(9) by (simp add: x_def y_def rest_def)
  have xy: "x * y \<le> x * x + y * y" using x(1) y(1) by (rule product_le_squares)
  have sq: "0 \<le> x * x" "0 \<le> y * y" "0 \<le> x * y" using x(1) y(1) by simp_all
  have p1: "round64 (x * y) = Fin (x * y)"
    using sq xy total rest0 Cons.prems(4,6) by (intro round64_whole whole_mult x y) linarith+
  have p2: "round64 (x * x) = Fin (x * x)"
    using sq total rest0 Cons.prems(4,6) by (intro round64_whole whole_mult x y) linarith+
  have p3: "round64 (y * y) = Fin (y * y)"
    using sq total rest0 Cons.prems(4,6) by (intro round64_whole whole_mult x y) linarith+
  have s1: "round64 (d + x * y) = Fin (d + x * y)"
    using sq xy total rest0 Cons.prems(2,3,4,6,8)
    by (intro round64_whole whole_add whole_mult x y) linarith+
  have s2: "round64 (a + x * x) = Fin (a + x * x)"
    using sq total rest0 Cons.prems(4,5,6)
    by (intro round64_whole whole_add whole_mult x y) linarith+
  have s3: "round64 (b + y * y) = Fin (b + y * y)"
    using sq total rest0 Cons.prems(4,6,7)
    by (intro round64_whole whole_add whole_mult x y) linarith+
  have step: "object_step u v k (Fin d, Fin a, Fin b) =
                (Fin (d + x * y), Fin (a + x * x), Fin (b + y * y))"
    by (simp add: object_step_def Let_def w p1 p2 p3 s1 s2 s3)
  have "fold (object_step u v) ks (Fin (d + x * y), Fin (a + x * x), Fin (b + y * y)) =
          (Fin (d + x * y + (\<Sum>k\<leftarrow>ks. f k * g k)), Fin (a + x * x + (\<Sum>k\<leftarrow>ks. f k * f k)),
           Fin (b + y * y + (\<Sum>k\<leftarrow>ks. g k * g k)))"
  proof (rule Cons.IH)
    show "\<forall>k\<in>set ks. weight_of u k = Fin (f k) \<and> weight_of v k = Fin (g k)
             \<and> 0 \<le> f k \<and> of_int \<lfloor>f k\<rfloor> = f k \<and> 0 \<le> g k \<and> of_int \<lfloor>g k\<rfloor> = g k"
      using Cons.prems(1) by simp
    show "0 \<le> d + x * y" using Cons.prems(2) sq by linarith
    show "of_int \<lfloor>d + x * y\<rfloor> = d + x * y"
      by (intro whole_add whole_mult x y Cons.prems(3))
    show "0 \<le> a + x * x" using Cons.prems(4) sq by linarith
    show "of_int \<lfloor>a + x * x\<rfloor> = a + x * x"
      by (intro whole_add whole_mult x y Cons.prems(5))
    show "0 \<le> b + y * y" using Cons.prems(6) sq by linarith
    show "of_int \<lfloor>b + y * y\<rfloor> = b + y * y"
      by (intro whole_add whole_mult x y Cons.prems(7))
    show "d + x * y \<le> a + x * x + (b + y * y)" using Cons.prems(8) xy by linarith
    show "a + x * x + (b + y * y) + (\<Sum>k\<leftarrow>ks. f k * f k + g k * g k) < 2 ^ 53"
      using total by (simp add: rest_def algebra_simps)
  qed
  then show ?case
    unfolding fold_Cons comp_def step by (simp add: x_def y_def algebra_simps)
qed

lemma whole_weight_of:
  assumes "whole_weights obj" "key \<notin> set object_prototype_keys"
  shows "weight_of obj key = Fin (real_weight obj key) \<and> 0 \<le> real_weight obj key
           \<and> of_int \<lfloor>real_weight obj key\<rfloor> = real_weight obj key"
proof (cases "map_of obj key")
  case None
  then show ?thesis
    using assms(2) by (simp add: weight_of_def get_prop_def real_weight_def)
next
  case (Some w)
  then have "(key, w) \<in> set obj" by (rule map_of_SomeD)
  with assms(1) have "case w of Num (Fin x) \<Rightarrow> 0 \<le> x \<and> of_int \<lfloor>x\<rfloor> = x | _ \<Rightarrow> False"
    by (auto simp: whole_weights_def list_all_iff)
  with Some show ?thesis
    by (simp add: weight_of_def get_prop_def real_weight_def split: jsval.splits num.splits)
qed

lemma whole_keys:
  "whole_weights obj \<Longrightarrow> key \<in> fst ` set obj \<Longrightarrow> key \<notin> set object_prototype_keys"
  by (auto simp: whole_weights_def list_all_iff)

lemma sum_all_keys_swap:
  fixes f :: "jsstring \<Rightarrow> real"
  shows "sum_list (map f (all_keys v1 v2)) = sum_list (map f (all_keys v2 v1))"
proof -
  have "set (all_keys v1 v2) = set (all_keys v2 v1)"
    by (auto simp: all_keys_def set_js_set)
  then show ?thesis
    by (simp add: sum_list_distinct_conv_sum_set all_keys_def distinct_js_set)
qed

text \<open>The three sums of the sparse path on two vectors of counts.\<close>

lemma fold_object_step_whole:
  assumes "whole_weights u" "whole_weights v" "sum_of_squares u v < 2 ^ 53"
  shows "fold (object_step u v) (all_keys u v) (Fin 0, Fin 0, Fin 0) =
           (Fin (\<Sum>k\<leftarrow>all_keys u v. real_weight u k * real_weight v k),
            Fin (\<Sum>k\<leftarrow>all_keys u v. real_weight u k * real_weight u k),
            Fin (\<Sum>k\<leftarrow>all_keys u v. real_weight v k * real_weight v k))"
proof -
  have keys: "\<forall>k\<in>set (all_keys u v). weight_of u k = Fin (real_weight u k)
      \<and> weight_of v k = Fin (real_weight v k)
      \<and> 0 \<le> real_weight u k \<and> of_int \<lfloor>real_weight u k\<rfloor> = real_weight u k
      \<and> 0 \<le> real_weight v k \<and> of_int \<lfloor>real_weight v k\<rfloor> = real_weight v k"
  proof
    fix k
    assume "k \<in> set (all_keys u v)"
    then have "k \<notin> set object_prototype_keys"
      using whole_keys[OF assms(1)] whole_keys[OF assms(2)] by (auto simp: set_all_keys)
    then show "weight_of u k = Fin (real_weight u k)
      \<and> weight_of v k = Fin (real_weight v k)
      \<and> 0 \<le> real_weight u k \<and> of_int \<lfloor>real_weight u k\<rfloor> = real_weight u k
      \<and> 0 \<le> real_weight v k \<and> of_int \<lfloor>real_weight v k\<rfloor> = real_weight v k"
      using whole_weight_of[OF assms(1), of k] whole_weight_of[OF assms(2), of k] by simp
  qed
  have "fold (object_step u v) (all_keys u v) (Fin 0, Fin 0, Fin 0) =
           (Fin (0 + (\<Sum>k\<leftarrow>all_keys u v. real_weight u k * real_weight v k)),
            Fin (0 + (\<Sum>k\<leftarrow>all_keys u v. real_weight u k * real_weight u k)),
            Fin (0 + (\<Sum>k\<leftarrow>all_keys u v. real_weight v k * real_weight v k)))"
    by (rule fold_object_step_exact[OF keys]) (use assms(3) in \<open>simp_all add: sum_of_squares_def\<close>)
  then show ?thesis by simp
qed

lemma sum_of_squares_commute: "sum_of_squares u v = sum_of_squares v u"
  unfolding sum_of_squares_def
  by (subst sum_all_keys_swap) (simp add: add.commute)

lemma calculateObjectCosineSimilarity_whole_commute:
  assumes "whole_weights u" "whole_weights v" "sum_of_squares u v < 2 ^ 53"
  shows "calculateObjectCosineSimilarity u v = calculateObjectCosineSimilarity v u"
proof -
  have rev: "sum_of_squares v u < 2 ^ 53"
    using assms(3) by (simp add: sum_of_squares_commute)
  have swap: "(\<lambda>k. real_weight v k * real_weight u k) = (\<lambda>k. real_weight u k * real_weight v k)"
    by (simp add: mult.commute)
  show ?thesis
    unfolding calculateObjectCosineSimilarity_def
      fold_object_step_whole[OF assms] fold_object_step_whole[OF assms(2,1) rev]
    by (simp add: sum_all_keys_swap[of _ v u] swap) (auto simp: num_mul_commute)
qed

lemma big_facts:
  "round64 big = Fin big" "round64 (big + 1) = Fin big" "round64 (big + 2) = Fin (big + 2)"
  "round64 (big * big) = Fin (big * big)" "round64 (big * big + 1) = Fin (big * big)"
  "round64 (big * big + 2) = Fin (big * big)" "round64 (big * 2) = Fin (big * 2)"
proof -
  have h: "(2::real) ^ 110 \<le> huge" by (rule power_below_huge) simp
  show "round64 big = Fin big"
    using round64_eval_up[of 1 big "2 ^ 52"] h
    by (simp add: big_def round_half_even_def)
  show "round64 (big + 1) = Fin big"
    using round64_eval_up[of 1 "big + 1" "2 ^ 52"] h
    by (simp add: big_def round_half_even_def Let_def)
  show "round64 (big + 2) = Fin (big + 2)"
    using round64_eval_up[of 1 "big + 2" "2 ^ 52 + 1"] h
    by (simp add: big_def round_half_even_def Let_def)
  show "round64 (big * big) = Fin (big * big)"
    using round64_eval_up[of 54 "big * big" "2 ^ 52"] h
    by (simp add: big_def round_half_even_def Let_def)
  show "round64 (big * big + 1) = Fin (big * big)"
    using round64_eval_up[of 54 "big * big + 1" "2 ^ 52"] h
    by (simp add: big_def round_half_even_def Let_def)
  show "round64 (big * big + 2) = Fin (big * big)"
    using round64_eval_up[of 54 "big * big + 2" "2 ^ 52"] h
    by (simp add: big_def round_half_even_def Let_def)
  show "round64 (big * 2) = Fin (big * 2)"
    using round64_eval_up[of 2 "big * 2" "2 ^ 52"] h
    by (simp add: big_def round_half_even_def Let_def)
qed

lemma half_facts:
  "round64 (1 / 2) = Fin (1 / 2)"
  "round64 ((big + 2) / (big * 2)) = Fin ((big + 2) / (big * 2))"
proof -
  show "round64 (1 / 2) = Fin (1 / 2)"
    using round64_eval_down[of "1 / 2" 53 "2 ^ 52"]
    by (simp add: round_half_even_def Let_def)
  show "round64 ((big + 2) / (big * 2)) = Fin ((big + 2) / (big * 2))"
    using round64_eval_down[of "(big + 2) / (big * 2)" 53 "2 ^ 52 + 1"]
    by (simp add: big_def round_half_even_def Let_def)
qed

lemma big_pos: "0 < big" "big \<noteq> 0" "big * big \<noteq> 0" "\<bar>big\<bar> = big"
  by (simp_all add: big_def)

lemma keys_heavy_light:
  "all_keys heavy_vector light_vector = [str ''p'', str ''q'', str ''r'', str ''s'']"
  "all_keys light_vector heavy_vector = [str ''r'', str ''q'', str ''p'', str ''s'']"
  by (simp_all add: all_keys_def js_set_def heavy_vector_def light_vector_def str_def)

lemma weights_heavy_light:
  "weight_of heavy_vector (str ''p'') = Fin big" "weight_of heavy_vector (str ''q'') = Fin 1"
  "weight_of heavy_vector (str ''r'') = Fin 1" "weight_of heavy_vector (str ''s'') = Fin 0"
  "weight_of light_vector (str ''p'') = Fin 1" "weight_of light_vector (str ''q'') = Fin 1"
  "weight_of light_vector (str ''r'') = Fin 1" "weight_of light_vector (str ''s'') = Fin 1"
  by (simp_all add: weight_of_def get_prop_def heavy_vector_def light_vector_def str_def
      object_prototype_keys_def)

lemma big_facts_commuted:
  "round64 (1 + big) = Fin big" "round64 (2 + big) = Fin (big + 2)"
  "round64 (1 + big * big) = Fin (big * big)" "round64 (2 + big * big) = Fin (big * big)"
  "round64 (2 * big) = Fin (big * 2)"
  using big_facts by (simp_all only: add.commute[of _ big] add.commute[of _ "big * big"]
      mult.commute[of 2 big])

lemma heavy_light: "calculateObjectCosineSimilarity heavy_vector light_vector = Fin (1 / 2)"
  by (simp add: calculateObjectCosineSimilarity_def keys_heavy_light object_step_def Let_def
      weights_heavy_light big_facts big_facts_commuted half_facts big_pos real_sqrt_abs2)

lemma light_heavy:
  "calculateObjectCosineSimilarity light_vector heavy_vector = Fin ((big + 2) / (big * 2))"
  by (simp add: calculateObjectCosineSimilarity_def keys_heavy_light object_step_def Let_def
      weights_heavy_light big_facts big_facts_commuted half_facts big_pos real_sqrt_abs2)

text \<open>The Cauchy-Schwarz inequality for the sums of the two loops.\<close>

lemma cauchy_schwarz_list:
  fixes f g :: "'a \<Rightarrow> real"
  shows "(\<Sum>k\<leftarrow>ks. f k * g k)\<^sup>2 \<le> (\<Sum>k\<leftarrow>ks. f k * f k) * (\<Sum>k\<leftarrow>ks. g k * g k)"
proof (induction ks)
  case Nil
  then show ?case by simp
next
  case (Cons k ks)
  define D where "D = (\<Sum>k\<leftarrow>ks. f k * g k)"
  define A where "A = (\<Sum>k\<leftarrow>ks. f k * f k)"
  define B where "B = (\<Sum>k\<leftarrow>ks. g k * g k)"
  define x where "x = f k"
  define y where "y = g k"
  have A0: "0 \<le> A" unfolding A_def by (rule sum_list_nonneg) auto
  have B0: "0 \<le> B" unfolding B_def by (rule sum_list_nonneg) auto
  have IH: "D\<^sup>2 \<le> A * B" using Cons.IH by (simp add: D_def A_def B_def)
  have "\<bar>D\<bar> \<le> sqrt (A * B)"
    using IH by (metis real_sqrt_le_iff real_sqrt_abs)
  then have "\<bar>x * y\<bar> * \<bar>D\<bar> \<le> \<bar>x * y\<bar> * sqrt (A * B)"
    by (simp add: mult_left_mono)
  also have "\<dots> = (\<bar>x\<bar> * sqrt B) * (\<bar>y\<bar> * sqrt A)"
    by (simp add: abs_mult real_sqrt_mult)
  finally have 1: "2 * (\<bar>x * y\<bar> * \<bar>D\<bar>) \<le> 2 * (\<bar>x\<bar> * sqrt B) * (\<bar>y\<bar> * sqrt A)"
    by simp
  have 2: "2 * (\<bar>x\<bar> * sqrt B) * (\<bar>y\<bar> * sqrt A) \<le> (\<bar>x\<bar> * sqrt B)\<^sup>2 + (\<bar>y\<bar> * sqrt A)\<^sup>2"
    using sum_squares_bound[of "\<bar>x\<bar> * sqrt B" "\<bar>y\<bar> * sqrt A"] by simp
  have 3: "(\<bar>x\<bar> * sqrt B)\<^sup>2 + (\<bar>y\<bar> * sqrt A)\<^sup>2 = x * x * B + y * y * A"
  proof -
    have "(\<bar>x\<bar> * sqrt B)\<^sup>2 = x * x * B" "(\<bar>y\<bar> * sqrt A)\<^sup>2 = y * y * A"
      using A0 B0 by (simp_all add: power_mult_distrib) (simp_all add: power2_eq_square)
    then show ?thesis by simp
  qed
  have "x * y * D \<le> \<bar>x * y\<bar> * \<bar>D\<bar>"
    by (metis abs_mult abs_ge_self)
  with 1 2 3 have cross: "2 * (x * y * D) \<le> x * x * B + y * y * A"
    by linarith
  have "(x * y + D)\<^sup>2 = (x * y)\<^sup>2 + 2 * (x * y * D) + D\<^sup>2"
    by (simp add: power2_eq_square algebra_simps)
  also have "\<dots> \<le> (x * y)\<^sup>2 + (x * x * B + y * y * A) + A * B"
    using cross IH by linarith
  also have "\<dots> = (x * x + A) * (y * y + B)"
    by (simp add: power2_eq_square algebra_simps)
  finally show ?case by (simp add: D_def A_def B_def x_def y_def)
qed

text \<open>
  The quotient of the cosine formula on exact sums below \<open>2 ^ 53\<close>: the root of each norm,
  their product and the quotient are each rounded once, so the result is a number from
  zero up that exceeds 1 by \<open>2 ^ - 50\<close> at most.
\<close>

lemma rounded_root:
  assumes "1 \<le> A" "A < 2 ^ 53"
  shows "\<exists>s. round64 (sqrt A) = Fin s \<and> 1 \<le> s \<and> s \<le> 2 ^ 27
             \<and> sqrt A * (1 - 1 / 2 ^ 53) \<le> s"
proof -
  have "sqrt 1 \<le> sqrt A" using assms(1) by (simp only: real_sqrt_le_iff)
  then have lo: "2 powi 0 \<le> sqrt A" by simp
  have "A \<le> (2 ^ 27)\<^sup>2" using assms(2) by simp
  then have "sqrt A \<le> sqrt ((2 ^ 27)\<^sup>2)" by (simp only: real_sqrt_le_iff)
  then have "sqrt A \<le> 2 ^ 27" by (simp only: real_sqrt_abs) simp
  then have hi: "sqrt A \<le> 2 powi 27" by simp
  obtain s where s: "round64 (sqrt A) = Fin s" "2 powi 0 \<le> s" "s \<le> 2 powi 27"
    "\<bar>s - sqrt A\<bar> \<le> sqrt A / 2 ^ 53"
    using round64_bounds[OF lo hi] by auto
  have "sqrt A - sqrt A / 2 ^ 53 \<le> s" using s(4) by linarith
  then have "sqrt A * (1 - 1 / 2 ^ 53) \<le> s" by (simp only: right_diff_distrib) simp
  then show ?thesis using s(1-3) by auto
qed

lemma cosine_rounding:
  fixes D A B :: real
  assumes "D\<^sup>2 \<le> A * B" "D = 0 \<or> 1 \<le> D" "D < 2 ^ 53"
    and "1 \<le> A" "A < 2 ^ 53" "1 \<le> B" "B < 2 ^ 53"
  shows "in_range 0 (1 + 1 / 2 ^ 50)
           (num_div (Fin D) (num_mul (num_sqrt (Fin A)) (num_sqrt (Fin B))))"
proof -
  define u :: real where "u = 1 / 2 ^ 53"
  have u: "0 < u" "u < 1" by (simp_all add: u_def)
  have poly: "1 + u \<le> (1 + 8 * u) * ((1 - u) * (1 - u) * (1 - u))"
    unfolding u_def by simp
  have eight: "1 + 8 * u = 1 + 1 / 2 ^ 50" unfolding u_def by simp
  obtain s1 where s1: "round64 (sqrt A) = Fin s1" "1 \<le> s1" "s1 \<le> 2 ^ 27"
    "sqrt A * (1 - u) \<le> s1"
    using rounded_root[OF assms(4,5)] unfolding u_def by auto
  obtain s2 where s2: "round64 (sqrt B) = Fin s2" "1 \<le> s2" "s2 \<le> 2 ^ 27"
    "sqrt B * (1 - u) \<le> s2"
    using rounded_root[OF assms(6,7)] unfolding u_def by auto
  define t where "t = s1 * s2"
  have t1: "1 \<le> t"
    unfolding t_def using s1(2) s2(2) by (metis mult_mono mult_1 zero_le_one order_trans)
  have "s1 * s2 \<le> 2 ^ 27 * 2 ^ 27"
    using s1(2,3) s2(2,3) by (intro mult_mono) simp_all
  then have t2: "t \<le> 2 ^ 54" unfolding t_def by simp
  have tlo: "2 powi 0 \<le> t" and thi: "t \<le> 2 powi 54" using t1 t2 by simp_all
  obtain p where p: "round64 t = Fin p" "2 powi 0 \<le> p" "p \<le> 2 powi 54"
    "\<bar>p - t\<bar> \<le> t / 2 ^ 53"
    using round64_bounds[OF tlo thi] by auto
  have p1: "1 \<le> p" and p2: "p \<le> 2 ^ 54" using p(2,3) by simp_all
  have "t - t / 2 ^ 53 \<le> p" using p(4) by linarith
  then have pt: "t * (1 - u) \<le> p" unfolding u_def by (simp only: right_diff_distrib) simp
  have A0: "0 \<le> sqrt A" "0 \<le> sqrt B" using assms(4,6) by simp_all
  have "(sqrt A * (1 - u)) * (sqrt B * (1 - u)) \<le> s1 * s2"
    using s1(2,4) s2(2,4) A0 u by (intro mult_mono) simp_all
  then have "(sqrt A * (1 - u)) * (sqrt B * (1 - u)) * (1 - u) \<le> t * (1 - u)"
    unfolding t_def using u by (intro mult_right_mono) simp_all
  then have lower: "sqrt A * sqrt B * ((1 - u) * (1 - u) * (1 - u)) \<le> p"
    using pt by (simp add: mult_ac)
  have den: "num_mul (num_sqrt (Fin A)) (num_sqrt (Fin B)) = Fin p"
    using assms(4,6) s1(1) s2(1) p(1) by (simp add: t_def)
  have quot: "num_div (Fin D) (num_mul (num_sqrt (Fin A)) (num_sqrt (Fin B))) = round64 (D / p)"
    unfolding den using p1 by simp
  show ?thesis
  proof (cases "D = 0")
    case True
    then show ?thesis unfolding quot by simp
  next
    case False
    then have D1: "1 \<le> D" using assms(2) by simp
    define q where "q = D / p"
    have "1 / 2 ^ 54 \<le> 1 / p" using p1 p2 by (intro divide_left_mono) simp_all
    also have "\<dots> \<le> D / p" using D1 p1 by (intro divide_right_mono) simp_all
    finally have "1 / 2 ^ 54 \<le> q" unfolding q_def .
    then have qlo: "2 powi (- 54) \<le> q" by (simp add: power_int_minus_divide)
    have "D / p \<le> D / 1" using D1 p1 by (intro divide_left_mono) simp_all
    then have "q \<le> 2 ^ 53" unfolding q_def using assms(3) by simp
    then have qhi: "q \<le> 2 powi 53" by simp
    obtain r where r: "round64 q = Fin r" "2 powi (- 54) \<le> r" "\<bar>r - q\<bar> \<le> q / 2 ^ 53"
      using round64_bounds[OF qlo qhi] by auto
    have r0: "0 \<le> r" using r(2) by (smt (verit) zero_less_power_int)
    have q0: "0 \<le> q" unfolding q_def using D1 p1 by simp
    have "r \<le> q + q / 2 ^ 53" using r(3) by linarith
    then have rq: "r \<le> q * (1 + u)" unfolding u_def by (simp add: distrib_left)
    have "\<bar>D\<bar> \<le> sqrt (A * B)"
      using assms(1) by (metis real_sqrt_le_iff real_sqrt_abs)
    then have "D \<le> sqrt A * sqrt B" by (simp add: real_sqrt_mult)
    moreover have c0: "0 \<le> (1 - u) * (1 - u) * (1 - u)" using u by simp
    ultimately have "D * ((1 - u) * (1 - u) * (1 - u)) \<le> sqrt A * sqrt B * ((1 - u) * (1 - u) * (1 - u))"
      by (intro mult_right_mono)
    then have "D * ((1 - u) * (1 - u) * (1 - u)) \<le> p" using lower by linarith
    then have "D * ((1 - u) * (1 - u) * (1 - u)) / p \<le> 1" using p1 by simp
    then have qc: "q * ((1 - u) * (1 - u) * (1 - u)) \<le> 1" unfolding q_def by simp
    have "q * (1 + u) \<le> q * ((1 + 8 * u) * ((1 - u) * (1 - u) * (1 - u)))"
      using poly q0 by (intro mult_left_mono)
    also have "\<dots> = (q * ((1 - u) * (1 - u) * (1 - u))) * (1 + 8 * u)" by (simp add: mult_ac)
    also have "\<dots> \<le> 1 * (1 + 8 * u)" using qc u by (intro mult_right_mono) simp_all
    finally have "r \<le> 1 + 1 / 2 ^ 50" using rq unfolding eight by simp
    then show ?thesis unfolding quot q_def[symmetric] using r(1) r0 by simp
  qed
qed

lemma whole_sum_list:
  fixes f :: "'a \<Rightarrow> real"
  assumes "\<forall>k\<in>set ks. 0 \<le> f k \<and> of_int \<lfloor>f k\<rfloor> = f k"
  shows "0 \<le> sum_list (map f ks) \<and> of_int \<lfloor>sum_list (map f ks)\<rfloor> = sum_list (map f ks)"
  using assms
proof (induction ks)
  case Nil
  then show ?case by simp
next
  case (Cons k ks)
  then have "0 \<le> f k" "of_int \<lfloor>f k\<rfloor> = f k" "0 \<le> sum_list (map f ks)"
    "of_int \<lfloor>sum_list (map f ks)\<rfloor> = sum_list (map f ks)" by simp_all
  then show ?case using whole_add[of "f k" "sum_list (map f ks)"] by simp
qed

lemma whole_zero_or_one:
  fixes x :: real
  assumes "0 \<le> x" "of_int \<lfloor>x\<rfloor> = x"
  shows "x = 0 \<or> 1 \<le> x"
proof (cases "\<lfloor>x\<rfloor> \<le> 0")
  case True
  then have "(of_int \<lfloor>x\<rfloor> :: real) \<le> 0" by (simp only: of_int_le_0_iff)
  then show ?thesis using assms by simp
next
  case False
  then have "1 \<le> \<lfloor>x\<rfloor>" by simp
  then have "(1::real) \<le> of_int \<lfloor>x\<rfloor>" by (simp only: of_int_1_le_iff)
  then show ?thesis using assms(2) by simp
qed

text \<open>The sparse path on two vectors of counts whose squares add up to less than \<open>2 ^ 53\<close>.\<close>

lemma calculateObjectCosineSimilarity_whole_range:
  assumes "whole_weights u" "whole_weights v" "sum_of_squares u v < 2 ^ 53"
  shows "in_range 0 (1 + 1 / 2 ^ 50) (calculateObjectCosineSimilarity u v)"
proof -
  define ks where "ks = all_keys u v"
  define D where "D = (\<Sum>k\<leftarrow>ks. real_weight u k * real_weight v k)"
  define A where "A = (\<Sum>k\<leftarrow>ks. real_weight u k * real_weight u k)"
  define B where "B = (\<Sum>k\<leftarrow>ks. real_weight v k * real_weight v k)"
  have keys: "0 \<le> real_weight u k \<and> of_int \<lfloor>real_weight u k\<rfloor> = real_weight u k
      \<and> 0 \<le> real_weight v k \<and> of_int \<lfloor>real_weight v k\<rfloor> = real_weight v k"
    if "k \<in> set ks" for k
  proof -
    have "k \<notin> set object_prototype_keys"
      using that whole_keys[OF assms(1)] whole_keys[OF assms(2)]
      by (auto simp: ks_def set_all_keys)
    then show ?thesis
      using whole_weight_of[OF assms(1), of k] whole_weight_of[OF assms(2), of k] by simp
  qed
  have wD: "0 \<le> D \<and> of_int \<lfloor>D\<rfloor> = D"
    unfolding D_def using keys by (intro whole_sum_list) (simp add: whole_mult)
  have wA: "0 \<le> A \<and> of_int \<lfloor>A\<rfloor> = A"
    unfolding A_def using keys by (intro whole_sum_list) (simp add: whole_mult)
  have wB: "0 \<le> B \<and> of_int \<lfloor>B\<rfloor> = B"
    unfolding B_def using keys by (intro whole_sum_list) (simp add: whole_mult)
  have sum: "A + B = sum_of_squares u v"
    unfolding A_def B_def sum_of_squares_def ks_def by (simp add: sum_list_addf)
  have "D \<le> (\<Sum>k\<leftarrow>ks. real_weight u k * real_weight u k + real_weight v k * real_weight v k)"
    unfolding D_def using keys by (intro sum_list_mono) (simp add: product_le_squares)
  then have "D \<le> sum_of_squares u v" by (simp add: sum_of_squares_def ks_def)
  then have D53: "D < 2 ^ 53" using assms(3) by linarith
  have A53: "A < 2 ^ 53" and B53: "B < 2 ^ 53" using sum wA wB assms(3) by linarith+
  have cs: "D\<^sup>2 \<le> A * B" unfolding D_def A_def B_def by (rule cauchy_schwarz_list)
  have fold: "fold (object_step u v) (all_keys u v) (Fin 0, Fin 0, Fin 0) = (Fin D, Fin A, Fin B)"
    using fold_object_step_whole[OF assms] by (simp add: D_def A_def B_def ks_def)
  show ?thesis
  proof (cases "A = 0 \<or> B = 0")
    case True
    then show ?thesis by (auto simp: calculateObjectCosineSimilarity_def fold)
  next
    case False
    then have "1 \<le> A" "1 \<le> B" using whole_zero_or_one wA wB by blast+
    then have "in_range 0 (1 + 1 / 2 ^ 50)
        (num_div (Fin D) (num_mul (num_sqrt (Fin A)) (num_sqrt (Fin B))))"
      using cosine_rounding[OF cs _ D53 _ A53 _ B53] whole_zero_or_one wD by blast
    then show ?thesis using False by (simp add: calculateObjectCosineSimilarity_def fold)
  qed
qed

lemma in_range_not_NaN: "in_range lo hi x \<Longrightarrow> x \<noteq> NaN"
  by (cases x) simp_all

text \<open>
  C4. Whenever one of the two inputs of \<open>calculateCosineSimilarity\<close> is absent, or one is
  an array and the other is not, the result is exactly 0. The function has no branch that
  raises.
\<close>

theorem calculateCosineSimilarity_absent_or_mixed:
  "a = Absent \<or> b = Absent \<or> isArray a \<noteq> isArray b \<Longrightarrow> calculateCosineSimilarity a b = Fin 0"
  by (cases a; cases b) auto

theorem calculateCosineSimilarity_absent_or_mixed_witness:
  "isArray (Dense [1, 2]) \<noteq> isArray (Sparse [(str ''hero'', Num (Fin 1))])
   \<and> calculateCosineSimilarity (Dense [1, 2]) (Sparse [(str ''hero'', Num (Fin 1))]) = Fin 0
   \<and> calculateCosineSimilarity Absent (Dense [1, 2]) = Fin 0"
  using calculateCosineSimilarity_absent_or_mixed[of "Dense [1, 2]"
          "Sparse [(str ''hero'', Num (Fin 1))]"]
        calculateCosineSimilarity_absent_or_mixed[of Absent "Dense [1, 2]"]
  by simp




text \<open>
  C8. The claim: the similarity is symmetric for every two vectors of the same
  representation. It fails for sparse vectors in the arithmetic of doubles: the loop
  adds the products in the order of the keys of the first argument, and the sum of
  doubles depends on that order. For \<open>{p: 2 ^ 53, q: 1, r: 1}\<close> and \<open>{r: 1, q: 1, p: 1, s: 1}\<close>
  the dot product is \<open>2 ^ 53\<close> in one order (each \<open>+ 1\<close> is rounded away) and \<open>2 ^ 53 + 2\<close> in
  the other, so the call gives \<open>0.5\<close> and the swapped call \<open>0.5 + 2 ^ - 53\<close>.
\<close>

theorem calculateCosineSimilarity_asymmetric:
  "calculateCosineSimilarity (Sparse heavy_vector) (Sparse light_vector) = Fin (1 / 2)
   \<and> calculateCosineSimilarity (Sparse light_vector) (Sparse heavy_vector)
       = Fin (1 / 2 + 1 / 2 ^ 53)
   \<and> calculateCosineSimilarity (Sparse heavy_vector) (Sparse light_vector)
       \<noteq> calculateCosineSimilarity (Sparse light_vector) (Sparse heavy_vector)"
  by (simp add: heavy_light light_heavy) (simp add: big_def)

text \<open>
  C8 as amended. For two dense vectors the two calls give the same number, or \<open>NaN\<close>
  both. For two sparse vectors of counts (whole numbers) whose squares add up to less than
  \<open>2 ^ 53\<close> the three sums are exact in either order, and the two calls give the same
  number.
\<close>

theorem calculateCosineSimilarity_symmetric_counts:
  "(strict_equal (calculateCosineSimilarity (Dense a) (Dense b))
       (calculateCosineSimilarity (Dense b) (Dense a))
     \<or> calculateCosineSimilarity (Dense a) (Dense b) = NaN
       \<and> calculateCosineSimilarity (Dense b) (Dense a) = NaN)
   \<and> (whole_weights u \<and> whole_weights v \<and> sum_of_squares u v < 2 ^ 53
        \<longrightarrow> strict_equal (calculateCosineSimilarity (Sparse u) (Sparse v))
              (calculateCosineSimilarity (Sparse v) (Sparse u)))"
  using calculateArrayCosineSimilarity_commute[of a b]
    calculateObjectCosineSimilarity_whole_commute[of u v]
    in_range_not_NaN[OF calculateObjectCosineSimilarity_whole_range[of u v]]
  by (auto simp: strict_equal_def)

theorem calculateCosineSimilarity_symmetric_counts_witness:
  "whole_weights [(str ''hero'', Num (Fin 2)), (str ''cave'', Num (Fin 1))]
   \<and> whole_weights [(str ''cave'', Num (Fin 3)), (str ''forest'', Num (Fin 1))]
   \<and> sum_of_squares [(str ''hero'', Num (Fin 2)), (str ''cave'', Num (Fin 1))]
        [(str ''cave'', Num (Fin 3)), (str ''forest'', Num (Fin 1))] < 2 ^ 53
   \<and> strict_equal
        (calculateCosineSimilarity (Sparse [(str ''hero'', Num (Fin 2)), (str ''cave'', Num (Fin 1))])
           (Sparse [(str ''cave'', Num (Fin 3)), (str ''forest'', Num (Fin 1))]))
        (calculateCosineSimilarity (Sparse [(str ''cave'', Num (Fin 3)), (str ''forest'', Num (Fin 1))])
           (Sparse [(str ''hero'', Num (Fin 2)), (str ''cave'', Num (Fin 1))]))"
  using calculateCosineSimilarity_symmetric_counts[of "[]" "[]"
          "[(str ''hero'', Num (Fin 2)), (str ''cave'', Num (Fin 1))]"
          "[(str ''cave'', Num (Fin 3)), (str ''forest'', Num (Fin 1))]"]
  by (simp add: whole_weights_def sum_of_squares_def all_keys_def js_set_def
      real_weight_def object_prototype_keys_def str_def)

section \<open>Properties of the vectorization in \<open>addConversation\<close>\<close>

lemma vectorize_cases:
  "vectorize m env T = Sparse (createKeywordVector T) \<or> \<not> invalid_vector (vectorize m env T)"
  by (auto simp: vectorize_def Let_def split: outcome.splits)

lemma vectorize_valid: "has_term T \<Longrightarrow> \<not> invalid_vector (vectorize m env T)"
  using vectorize_cases[of m env T] by (auto simp: createKeywordVector_Nil_iff)

lemma vectorize_backend_throws:
  "backend_throws m env T \<Longrightarrow> vectorize m env T = Sparse (createKeywordVector T)"
proof -
  assume "backend_throws m env T"
  then have "(embeddingMethod m = ''api''
        \<and> getEmbeddingFromAPI env T = Returns (Sparse (createKeywordVector T)))
      \<or> (embeddingMethod m = ''transformers''
        \<and> getEmbeddingFromTransformers env T = Returns (Sparse (createKeywordVector T)))"
    unfolding backend_throws_def library_defined_def
    by (auto simp: getEmbeddingFromAPI_def getEmbeddingFromTransformers_def Let_def
        split: outcome.splits option.splits)
  then show ?thesis
    by (auto simp: vectorize_def)
qed

lemma addConversation_last:
  "conversationEmbeddings (addConversation m env u a t vars) \<noteq> []"
  "conversation.turnIndex (last (conversationEmbeddings (addConversation m env u a t vars))) = t"
  "vector (last (conversationEmbeddings (addConversation m env u a t vars)))
     = vectorize m env (u @ [0x0A] @ a)"
  by (simp_all add: addConversation_def Let_def)

text \<open>
  C1. The claim: for every non-empty input text, \<open>addConversation\<close> stores a usable,
  non-empty vector under every embedding method, also when a backend throws. It fails for
  a text without a term of two letters or ideographs: with the keyword method, the user
  message \<^verbatim>\<open>1\<close> and the reply \<^verbatim>\<open>2\<close>, the stored vector is the empty
  object, which the manager's own check counts as no vector.
\<close>

theorem addConversation_empty_vector:
  "str ''1'' \<noteq> [] \<and>
   invalid_vector (vector (last (conversationEmbeddings
      (addConversation constructor failing_environment (str ''1'') (str ''2'') 1 no_variables))))"
  by (simp add: addConversation_last vectorize_def constructor_def createKeywordVector_def
      extractKeywords_def str_def is_cjk_def is_latin_def count_word_def js_sort_def)

text \<open>
  C1 as amended. \<open>addConversation\<close> always stores an entry for the turn. Its vector is not
  empty whenever the combined text (user message, line feed, reply) holds a term of two
  code units or more, under every embedding method and whatever the backends do. When the
  call to a backend throws, the stored vector is the sparse keyword vector of the combined
  text.
\<close>

theorem addConversation_vector:
  "let combinedText = userMsg @ [0x0A] @ aiResp;
       entry = last (conversationEmbeddings (addConversation m env userMsg aiResp turn vars))
   in conversationEmbeddings (addConversation m env userMsg aiResp turn vars) \<noteq> []
    \<and> conversation.turnIndex entry = turn
    \<and> (has_term combinedText \<longrightarrow> \<not> invalid_vector (vector entry))
    \<and> (backend_throws m env combinedText
         \<longrightarrow> vector entry = Sparse (createKeywordVector combinedText))"
  by (simp add: Let_def addConversation_last vectorize_valid vectorize_backend_throws)

theorem addConversation_vector_witness:
  "has_term (str ''enter the forest'' @ [0x0A] @ str ''ok'')
   \<and> backend_throws (constructor\<lparr>embeddingMethod := ''api''\<rparr>) failing_environment
        (str ''enter the forest'' @ [0x0A] @ str ''ok'')
   \<and> backend_throws (constructor\<lparr>embeddingMethod := ''transformers''\<rparr>) failing_environment
        (str ''enter the forest'' @ [0x0A] @ str ''ok'')
   \<and> \<not> invalid_vector (vector (last (conversationEmbeddings
        (addConversation (constructor\<lparr>embeddingMethod := ''api''\<rparr>) failing_environment
           (str ''enter the forest'') (str ''ok'') 1 no_variables))))
   \<and> vector (last (conversationEmbeddings
        (addConversation (constructor\<lparr>embeddingMethod := ''api''\<rparr>) failing_environment
           (str ''enter the forest'') (str ''ok'') 1 no_variables)))
       = Sparse (createKeywordVector (str ''enter the forest'' @ [0x0A] @ str ''ok''))
   \<and> vector (last (conversationEmbeddings
        (addConversation (constructor\<lparr>embeddingMethod := ''transformers''\<rparr>) failing_environment
           (str ''enter the forest'') (str ''ok'') 1 no_variables)))
       = Sparse (createKeywordVector (str ''enter the forest'' @ [0x0A] @ str ''ok''))"
proof -
  have t: "has_term (str ''enter the forest'' @ [0x0A] @ str ''ok'')"
    by (simp add: has_term_def str_def is_cjk_def is_latin_def)
  have a: "backend_throws (constructor\<lparr>embeddingMethod := ''api''\<rparr>) failing_environment
        (str ''enter the forest'' @ [0x0A] @ str ''ok'')"
    by (simp add: backend_throws_def failing_environment_def)
  have b: "backend_throws (constructor\<lparr>embeddingMethod := ''transformers''\<rparr>) failing_environment
        (str ''enter the forest'' @ [0x0A] @ str ''ok'')"
    by (simp add: backend_throws_def failing_environment_def)
  note api = addConversation_vector[of "str ''enter the forest''" "str ''ok''"
      "constructor\<lparr>embeddingMethod := ''api''\<rparr>" failing_environment 1 no_variables,
      unfolded Let_def]
  note device = addConversation_vector[of "str ''enter the forest''" "str ''ok''"
      "constructor\<lparr>embeddingMethod := ''transformers''\<rparr>" failing_environment 1 no_variables,
      unfolded Let_def]
  from api t have v: "\<not> invalid_vector (vector (last (conversationEmbeddings
        (addConversation (constructor\<lparr>embeddingMethod := ''api''\<rparr>) failing_environment
           (str ''enter the forest'') (str ''ok'') 1 no_variables))))"
    by blast
  from api a have e1: "vector (last (conversationEmbeddings
        (addConversation (constructor\<lparr>embeddingMethod := ''api''\<rparr>) failing_environment
           (str ''enter the forest'') (str ''ok'') 1 no_variables)))
       = Sparse (createKeywordVector (str ''enter the forest'' @ [0x0A] @ str ''ok''))"
    by blast
  from device b have e2: "vector (last (conversationEmbeddings
        (addConversation (constructor\<lparr>embeddingMethod := ''transformers''\<rparr>) failing_environment
           (str ''enter the forest'') (str ''ok'') 1 no_variables)))
       = Sparse (createKeywordVector (str ''enter the forest'' @ [0x0A] @ str ''ok''))"
    by blast
  show ?thesis
    by (intro conjI t a b v e1 e2)
qed

section \<open>Properties of the retriever\<close>

lemma set_insert_sorted: "set (insert_sorted cmp x ys) = insert x (set ys)"
  by (induction ys) auto

lemma set_js_sort: "set (js_sort cmp xs) = set xs"
  by (induction xs) (auto simp: js_sort_def set_insert_sorted)

lemma num_ge_trans: "num_ge a b \<Longrightarrow> num_ge b c \<Longrightarrow> num_ge a c"
  by (cases a; cases b; cases c) auto

text \<open>The similarity is a double, \<open>NaN\<close> or an infinity.\<close>

lemma machine_number_calculateObjectCosineSimilarity:
  "machine_number (calculateObjectCosineSimilarity a b)"
  using double_zero
  by (auto simp: calculateObjectCosineSimilarity_def machine_number_div split: prod.splits)

lemma machine_number_calculateArrayCosineSimilarity:
  "machine_number (calculateArrayCosineSimilarity a b)"
  using double_zero
  by (auto simp: calculateArrayCosineSimilarity_def Let_def machine_number_div split: prod.splits)

lemma machine_number_calculateCosineSimilarity:
  "machine_number (calculateCosineSimilarity a b)"
  using double_zero
  by (cases a; cases b)
    (simp_all add: machine_number_calculateObjectCosineSimilarity
      machine_number_calculateArrayCosineSimilarity)

lemma machine_number_score: "machine_number (scored.similarity (score v i conv))"
  by (simp add: score_def Let_def machine_number_calculateCosineSimilarity)

lemma compare_rankable:
  assumes "rankable x" "rankable y"
  shows "num_gt (compare_similarity x y) (Fin 0)
           \<longleftrightarrow> num_gt (scored.similarity y) (scored.similarity x)"
  unfolding compare_similarity_def
  using assms by (intro compare_doubles) (auto simp: rankable_def split: num.splits)

lemma num_gt_ge: "num_gt a b \<Longrightarrow> num_ge a b"
  by (cases a; cases b) auto

lemma not_num_gt_ge:
  assumes "rankable x" "rankable y"
    and "\<not> num_gt (scored.similarity y) (scored.similarity x)"
  shows "num_ge (scored.similarity x) (scored.similarity y)"
  using assms
  by (cases "scored.similarity x"; cases "scored.similarity y") (auto simp: rankable_def)

lemma insert_sorted_descending:
  assumes "descending ys" "rankable x" "list_all rankable ys"
  shows "descending (insert_sorted compare_similarity x ys)"
  using assms
proof (induction ys)
  case Nil
  then show ?case by (simp add: descending_def)
next
  case (Cons y ys)
  have ry: "rankable y" using Cons.prems(3) by simp
  have tail: "descending ys" "list_all rankable ys"
    using Cons.prems by (simp_all add: descending_def)
  show ?case
  proof (cases "num_gt (compare_similarity x y) (Fin 0)")
    case True
    then have yx: "num_ge (scored.similarity y) (scored.similarity x)"
      using compare_rankable[OF Cons.prems(2) ry] num_gt_ge by blast
    have "descending (insert_sorted compare_similarity x ys)"
      using Cons.IH tail Cons.prems(2) by simp
    moreover have "\<forall>z\<in>set (insert_sorted compare_similarity x ys).
        num_ge (scored.similarity y) (scored.similarity z)"
      using Cons.prems(1) yx by (auto simp: set_insert_sorted descending_def)
    ultimately show ?thesis using True by (simp add: descending_def)
  next
    case False
    then have xy: "num_ge (scored.similarity x) (scored.similarity y)"
      using compare_rankable[OF Cons.prems(2) ry] not_num_gt_ge[OF Cons.prems(2) ry] by blast
    have "\<forall>z\<in>set ys. num_ge (scored.similarity x) (scored.similarity z)"
      using Cons.prems(1) xy num_ge_trans by (auto simp: descending_def)
    then show ?thesis using False Cons.prems(1) xy by (simp add: descending_def)
  qed
qed

lemma js_sort_descending:
  "list_all rankable xs \<Longrightarrow> descending (js_sort compare_similarity xs)"
proof (induction xs)
  case Nil
  then show ?case by (simp add: js_sort_def descending_def)
next
  case (Cons x xs)
  then have "descending (js_sort compare_similarity xs)" by simp
  moreover have "list_all rankable (js_sort compare_similarity xs)"
    using Cons.prems by (simp add: list_all_iff set_js_sort)
  ultimately have "descending (insert_sorted compare_similarity x (js_sort compare_similarity xs))"
    using Cons.prems by (intro insert_sorted_descending) simp_all
  then show ?case by (simp add: js_sort_def)
qed

lemma relevant_rankable:
  "machine_number (scored.similarity x) \<Longrightarrow> relevant m x \<Longrightarrow> rankable x"
  by (cases "scored.similarity x") (simp_all add: relevant_def rankable_def)

lemma descending_take: "descending xs \<Longrightarrow> descending (take n xs)"
  unfolding descending_def by (rule sorted_wrt_take)

lemma descending_chunks:
  "descending xs \<Longrightarrow>
   sorted_wrt (\<lambda>a b. num_ge (chunk.similarity a) (chunk.similarity b)) (map to_chunk xs)"
  by (simp add: descending_def sorted_wrt_map to_chunk_def)

text \<open>
  C2. For every store, query text and configuration, \<open>retrieveRelevantContext\<close> returns at
  most \<open>maxRetrieveCount\<close> chunks, each with a similarity that is a number not below
  \<open>minSimilarityThreshold\<close>, in the order of descending similarity.
\<close>

theorem retrieveRelevantContext_bounds:
  "let chunks = relevantChunks (retrieveRelevantContext m currentInput recentHistory)
   in length chunks \<le> maxRetrieveCount m
    \<and> list_all (\<lambda>c. num_ge (chunk.similarity c) (Fin (minSimilarityThreshold m))) chunks
    \<and> sorted_wrt (\<lambda>a b. num_ge (chunk.similarity a) (chunk.similarity b)) chunks"
proof -
  define similarities where
    "similarities = map (\<lambda>(i, conv). score (createKeywordVector currentInput) i conv)
                      (enumerate 0 (conversationEmbeddings m))"
  define kept where "kept = js_sort compare_similarity (filter (relevant m) similarities)"
  have rel: "list_all (relevant m) kept"
    by (simp add: kept_def list_all_iff set_js_sort)
  have "\<forall>x\<in>set similarities. machine_number (scored.similarity x)"
    by (auto simp: similarities_def machine_number_score)
  then have "list_all rankable (filter (relevant m) similarities)"
    by (auto simp: list_all_iff intro: relevant_rankable)
  then have desc: "descending kept"
    unfolding kept_def by (rule js_sort_descending)
  have 1: "length (map to_chunk (take (maxRetrieveCount m) kept)) \<le> maxRetrieveCount m"
    by simp
  have 2: "list_all (\<lambda>c. num_ge (chunk.similarity c) (Fin (minSimilarityThreshold m)))
             (map to_chunk (take (maxRetrieveCount m) kept))"
    using rel by (auto simp: list_all_iff relevant_def to_chunk_def dest: in_set_takeD)
  have 3: "sorted_wrt (\<lambda>a b. num_ge (chunk.similarity a) (chunk.similarity b))
             (map to_chunk (take (maxRetrieveCount m) kept))"
    using desc by (intro descending_chunks descending_take)
  show ?thesis
    using 1 2 3
    by (simp add: retrieveRelevantContext_def Let_def similarities_def kept_def)
qed

section \<open>Properties of the memory store\<close>

lemma findIndex_ge: "- 1 \<le> findIndex P xs"
  by (induction xs) (auto simp: Let_def)

lemma findIndex_none: "findIndex P xs = - 1 \<longleftrightarrow> (\<forall>x\<in>set xs. \<not> P x)"
proof (induction xs)
  case Nil
  then show ?case by simp
next
  case (Cons x xs)
  have "findIndex P xs + 1 \<noteq> - 1" using findIndex_ge[of P xs] by arith
  then show ?case using Cons by (auto simp: Let_def)
qed












section \<open>Properties of the context assembler\<close>

lemma buildOptimizedMessages_eq:
  "buildOptimizedMessages m env systemPrompt currentVariables currentInput historyDepth full =
     [\<lparr>role = ''system'', content = Plain systemPrompt\<rparr>,
      \<lparr>role = ''system'', content = VariablesDump currentVariables\<rparr>]
     @ memory_messages m currentInput
     @ (let conversationHistory = (if length full > 0 then full else gameStateHistory env)
        in if length conversationHistory > 0 \<and> historyDepth > 0
           then slice_last (historyDepth * 2) conversationHistory else [])
     @ [\<lparr>role = ''user'', content = Plain currentInput\<rparr>]"
  by (simp add: buildOptimizedMessages_def memory_messages_def Let_def)

lemma last_four:
  assumes "length xs = 10"
  shows "slice_last 4 xs = [xs ! 6, xs ! 7, xs ! 8, xs ! 9]"
proof -
  have step: "\<And>i. i < 10 \<Longrightarrow> drop i xs = xs ! i # drop (Suc i) xs"
    using assms by (simp add: Cons_nth_drop_Suc)
  have "drop 6 xs = xs ! 6 # drop 7 xs" using step[of 6] by simp
  also have "drop 7 xs = xs ! 7 # drop 8 xs" using step[of 7] by simp
  also have "drop 8 xs = xs ! 8 # drop 9 xs" using step[of 8] by simp
  also have "drop 9 xs = xs ! 9 # drop 10 xs" using step[of 9] by simp
  also have "drop 10 xs = []" using assms by simp
  finally show ?thesis using assms by (simp add: slice_last_def)
qed

text \<open>
  C6. With \<open>historyDepth\<close> 2 and a history of 10 messages, \<open>buildOptimizedMessages\<close> gives
  the two system messages, then the message with the retrieved memories if there are any,
  then exactly the last four messages of the history in their order, then the user message
  with the query.
\<close>

theorem buildOptimizedMessages_recent_window:
  "length fullConversationHistory = 10 \<Longrightarrow>
   buildOptimizedMessages m env systemPrompt currentVariables currentInput 2
       fullConversationHistory =
     [\<lparr>role = ''system'', content = Plain systemPrompt\<rparr>,
      \<lparr>role = ''system'', content = VariablesDump currentVariables\<rparr>]
     @ memory_messages m currentInput
     @ [fullConversationHistory ! 6, fullConversationHistory ! 7,
        fullConversationHistory ! 8, fullConversationHistory ! 9]
     @ [\<lparr>role = ''user'', content = Plain currentInput\<rparr>]"
proof -
  assume len: "length fullConversationHistory = 10"
  then have "fullConversationHistory \<noteq> []" by auto
  then show ?thesis
    using last_four[OF len] by (simp add: buildOptimizedMessages_eq)
qed

theorem buildOptimizedMessages_recent_window_witness:
  "length example_history = 10
   \<and> buildOptimizedMessages constructor failing_environment (str ''rules'') no_variables
        (str ''go'') 2 example_history =
       [\<lparr>role = ''system'', content = Plain (str ''rules'')\<rparr>,
        \<lparr>role = ''system'', content = VariablesDump no_variables\<rparr>,
        \<lparr>role = ''user'', content = Plain (str ''u4'')\<rparr>,
        \<lparr>role = ''assistant'', content = Plain (str ''a4'')\<rparr>,
        \<lparr>role = ''user'', content = Plain (str ''u5'')\<rparr>,
        \<lparr>role = ''assistant'', content = Plain (str ''a5'')\<rparr>,
        \<lparr>role = ''user'', content = Plain (str ''go'')\<rparr>]"
  using buildOptimizedMessages_recent_window[of example_history constructor failing_environment
      "str ''rules''" no_variables "str ''go''"]
  by (simp add: example_history_def memory_messages_def retrieveRelevantContext_def
      constructor_def)

text \<open>
  C7. The claim: the window of recent messages is left out whenever \<open>historyDepth\<close> is 0 or
  the history passed in is empty. It fails when the history passed in is empty and the
  game state holds one: the function then takes the window from
  \<open>window.gameState.conversationHistory\<close>. With depth 1, an empty history and a game state
  of one turn, that turn is in the output.
\<close>

theorem buildOptimizedMessages_ambient_history:
  "buildOptimizedMessages constructor ambient_environment (str ''rules'') no_variables
      (str ''go'') 1 [] =
     [\<lparr>role = ''system'', content = Plain (str ''rules'')\<rparr>,
      \<lparr>role = ''system'', content = VariablesDump no_variables\<rparr>,
      \<lparr>role = ''user'', content = Plain (str ''u0'')\<rparr>,
      \<lparr>role = ''assistant'', content = Plain (str ''a0'')\<rparr>,
      \<lparr>role = ''user'', content = Plain (str ''go'')\<rparr>]
   \<and> buildOptimizedMessages constructor ambient_environment (str ''rules'') no_variables
      (str ''go'') 1 [] \<noteq>
     [\<lparr>role = ''system'', content = Plain (str ''rules'')\<rparr>,
      \<lparr>role = ''system'', content = VariablesDump no_variables\<rparr>]
     @ memory_messages constructor (str ''go'')
     @ [\<lparr>role = ''user'', content = Plain (str ''go'')\<rparr>]"
  by (simp add: buildOptimizedMessages_eq ambient_environment_def failing_environment_def
      slice_last_def memory_messages_def retrieveRelevantContext_def constructor_def)

text \<open>
  C7 as amended. The window of recent messages is left out whenever \<open>historyDepth\<close> is 0, or
  the history passed in is empty and the game state holds no history either. When the
  history passed in is empty and \<open>historyDepth\<close> is above 0, the window is made of the last
  \<open>historyDepth * 2\<close> messages of the game state's history.
\<close>

theorem buildOptimizedMessages_window_omitted:
  "(historyDepth = 0 \<or> (fullConversationHistory = [] \<and> gameStateHistory env = [])
      \<longrightarrow> buildOptimizedMessages m env systemPrompt currentVariables currentInput historyDepth
            fullConversationHistory =
          [\<lparr>role = ''system'', content = Plain systemPrompt\<rparr>,
           \<lparr>role = ''system'', content = VariablesDump currentVariables\<rparr>]
          @ memory_messages m currentInput
          @ [\<lparr>role = ''user'', content = Plain currentInput\<rparr>])
   \<and> (historyDepth > 0 \<and> fullConversationHistory = []
      \<longrightarrow> buildOptimizedMessages m env systemPrompt currentVariables currentInput historyDepth
            fullConversationHistory =
          [\<lparr>role = ''system'', content = Plain systemPrompt\<rparr>,
           \<lparr>role = ''system'', content = VariablesDump currentVariables\<rparr>]
          @ memory_messages m currentInput
          @ slice_last (historyDepth * 2) (gameStateHistory env)
          @ [\<lparr>role = ''user'', content = Plain currentInput\<rparr>])"
  by (auto simp: buildOptimizedMessages_eq slice_last_def Let_def)

theorem buildOptimizedMessages_window_omitted_witness:
  "buildOptimizedMessages constructor ambient_environment (str ''rules'') no_variables
      (str ''go'') 0 example_history =
     [\<lparr>role = ''system'', content = Plain (str ''rules'')\<rparr>,
      \<lparr>role = ''system'', content = VariablesDump no_variables\<rparr>,
      \<lparr>role = ''user'', content = Plain (str ''go'')\<rparr>]
   \<and> buildOptimizedMessages constructor failing_environment (str ''rules'') no_variables
      (str ''go'') 3 [] =
     [\<lparr>role = ''system'', content = Plain (str ''rules'')\<rparr>,
      \<lparr>role = ''system'', content = VariablesDump no_variables\<rparr>,
      \<lparr>role = ''user'', content = Plain (str ''go'')\<rparr>]
   \<and> buildOptimizedMessages constructor ambient_environment (str ''rules'') no_variables
      (str ''go'') 1 [] =
     [\<lparr>role = ''system'', content = Plain (str ''rules'')\<rparr>,
      \<lparr>role = ''system'', content = VariablesDump no_variables\<rparr>,
      \<lparr>role = ''user'', content = Plain (str ''u0'')\<rparr>,
      \<lparr>role = ''assistant'', content = Plain (str ''a0'')\<rparr>,
      \<lparr>role = ''user'', content = Plain (str ''go'')\<rparr>]"
  using buildOptimizedMessages_window_omitted[of 0 example_history ambient_environment
          constructor "str ''rules''" no_variables "str ''go''"]
        buildOptimizedMessages_window_omitted[of 3 "[]" failing_environment
          constructor "str ''rules''" no_variables "str ''go''"]
        buildOptimizedMessages_window_omitted[of 1 "[]" ambient_environment
          constructor "str ''rules''" no_variables "str ''go''"]
  by (simp add: ambient_environment_def failing_environment_def slice_last_def
      memory_messages_def retrieveRelevantContext_def constructor_def)

end
